theory Spec2Isabelle
  imports
    Main
    "HOL-Library.Word"
    "HOL-Library.Sublist"
    "HOL-Library.List_Lexorder"
    "HOL-Library.Char_ord"
begin

section \<open>The surface model (input)\<close>

text \<open>
  The embedding follows \<^verbatim>\<open>generator/generator.go\<close>.  The surface model is the
  input of the generator (package \<^verbatim>\<open>surface_v1\<close>); only the fields the generator
  reads are kept.  A Go \<^verbatim>\<open>string\<close> is a byte sequence, as \<^typ>\<open>string\<close> is.
  A slice that may be \<^verbatim>\<open>nil\<close> and is tested against \<^verbatim>\<open>nil\<close> is an option.
\<close>

datatype FieldKind = SCALAR | MAP | ARRAY | REFERENCE

datatype Position = BODY | HEADER | FORMDATA | QUERY | PATH

record Field =
  f_Name :: string
  f_Kind :: FieldKind
  f_Position :: Position
  f_NativeType :: string
  f_FieldName :: string
  f_EnumValues :: "string list option"

record SurfaceType =
  t_Name :: string
  t_Description :: string
  t_TypeName :: string
  t_Fields :: "Field list"

record Method =
  m_Method :: string
  m_Path :: string
  m_HandlerName :: string
  m_ParametersTypeName :: string
  m_ResponsesTypeName :: string

record Model =
  Types :: "SurfaceType list"
  Methods :: "Method list"
  SymbolicReferences :: "string list"

section \<open>The descriptors (output)\<close>

datatype FieldDescriptorProto_Type =
    TYPE_DOUBLE | TYPE_FLOAT | TYPE_INT64 | TYPE_UINT64 | TYPE_INT32 | TYPE_FIXED64
  | TYPE_FIXED32 | TYPE_BOOL | TYPE_STRING | TYPE_GROUP | TYPE_MESSAGE | TYPE_BYTES
  | TYPE_UINT32 | TYPE_ENUM | TYPE_SFIXED32 | TYPE_SFIXED64 | TYPE_SINT32 | TYPE_SINT64

datatype FieldDescriptorProto_Label = LABEL_OPTIONAL | LABEL_REQUIRED | LABEL_REPEATED

text \<open>Optional proto2 fields are Go pointers: \<^term>\<open>None\<close> is \<^verbatim>\<open>nil\<close>.  An \<^verbatim>\<open>int32\<close> is a
  32-bit word read with \<^const>\<open>sint\<close>.\<close>

record FieldDescriptorProto =
  fd_Name :: "string option"
  fd_Number :: "32 word option"
  fd_Label :: "FieldDescriptorProto_Label option"
  fd_Type :: "FieldDescriptorProto_Type option"
  fd_TypeName :: "string option"
  fd_Extendee :: "string option"

record EnumValueDescriptorProto =
  ev_Name :: "string option"
  ev_Number :: "32 word option"

record EnumDescriptorProto =
  ed_Name :: "string option"
  ed_Value :: "EnumValueDescriptorProto list"

record MessageOptions =
  mo_MapEntry :: "bool option"

datatype DescriptorProto = DescriptorProto
  (dp_Name: "string option")
  (dp_Field: "FieldDescriptorProto list")
  (dp_NestedType: "DescriptorProto list")
  (dp_EnumType: "EnumDescriptorProto list")
  (dp_Options: "MessageOptions option")

datatype HttpRule_Pattern =
    HttpRule_Get string | HttpRule_Post string | HttpRule_Put string
  | HttpRule_Patch string | HttpRule_Delete string

record HttpRule =
  hr_Pattern :: "HttpRule_Pattern option"
  hr_Body :: string

text \<open>The only option the generator sets on a method is the \<^verbatim>\<open>google.api.http\<close>
  extension.\<close>

record MethodOptions =
  mopt_Http :: "HttpRule option"

record MethodDescriptorProto =
  md_Name :: "string option"
  md_InputType :: "string option"
  md_OutputType :: "string option"
  md_Options :: "MethodOptions option"

record ServiceDescriptorProto =
  sd_Name :: "string option"
  sd_Method :: "MethodDescriptorProto list"

record FileDescriptorProto =
  file_Name :: "string option"
  file_Package :: "string option"
  file_Dependency :: "string list"
  file_MessageType :: "DescriptorProto list"
  file_Service :: "ServiceDescriptorProto list"
  file_Extension :: "FieldDescriptorProto list"
  file_Syntax :: "string option"

section \<open>Errors, collaborators and the process state\<close>

text \<open>An error value of a collaborator carries its message (\<^verbatim>\<open>err.Error()\<close>); the
  run-time panics the generator can raise are values of their own.\<close>

datatype error =
    Failure string
  | NilPointerPanic
  | SliceBoundsPanic
  | IndexPanic

text \<open>The decoded OpenAPI document (\<^verbatim>\<open>openapiv3.Document\<close>): the generator
  reads its \<^verbatim>\<open>Openapi\<close> field only; the rest of the document is kept opaque.\<close>

record Document =
  doc_Openapi :: string
  doc_Rest :: string

text \<open>
  The generated messages \<^verbatim>\<open>descriptor.MessageDescriptorProto\<close> is called on:
  \<^verbatim>\<open>annotations.Http\<close>, \<^verbatim>\<open>empty.Empty\<close> and \<^verbatim>\<open>dpb.DescriptorProto\<close>.  The library
  decodes the file descriptor of the file of a message once and keeps it; every
  call returns the pointer to that one object.

  So a pointer to a file descriptor is either the address of an object the generator
  has allocated (\<^verbatim>\<open>&dpb.FileDescriptorProto{...}\<close>) or the pointer to the object the
  library keeps for a message.  A descriptor set is the slice of pointers
  \<^verbatim>\<open>fdSet.File\<close>.
\<close>

datatype GeneratedMessage = annotations_Http | empty_Empty | dpb_DescriptorProto

type_synonym address = nat

datatype fdptr = Allocated address | Cached GeneratedMessage

type_synonym FileDescriptorSet = "fdptr list"

record Renderer =
  r_Model :: Model
  r_Package :: string
  r_SymbolicFdSets :: "FileDescriptorSet list"

text \<open>
  What the generator calls and this file does not contain, taken as parameters:
  the \<^verbatim>\<open>gnostic\<close> process (\<^verbatim>\<open>cmd.Output()\<close>), \<^verbatim>\<open>proto.Unmarshal\<close> (the document
  as the decoder left it, and its error), \<^verbatim>\<open>surface_v1.NewModelFromOpenAPI3\<close>,
  \<^verbatim>\<open>NewProtoLanguageModel().Prepare\<close>, \<^verbatim>\<open>NewRenderer\<close>, \<^verbatim>\<open>proto.SetExtension\<close>,
  and the Unicode-aware \<^verbatim>\<open>strings.Title\<close> and \<^verbatim>\<open>strings.ToUpper\<close>.
\<close>

record env =
  exec_gnostic :: "string \<Rightarrow> error + 8 word list"
  proto_Unmarshal :: "8 word list \<Rightarrow> Document \<times> error option"
  NewModelFromOpenAPI3 :: "Document \<Rightarrow> string \<Rightarrow> error + Model"
  Prepare :: "Model \<Rightarrow> string \<Rightarrow> Model"
  NewRenderer :: "Model \<Rightarrow> Renderer"
  proto_SetExtension :: "HttpRule \<Rightarrow> error option"
  strings_Title :: "string \<Rightarrow> string"
  strings_ToUpper :: "string \<Rightarrow> string"

text \<open>
  The package-level variables, the store of the file descriptors the generator has
  allocated, the file descriptors the library keeps (they are shared by all callers
  and the generator writes to one of them, so they are part of the state), and the
  two effects on the outside: the lines given to \<^verbatim>\<open>log.Println\<close> and the URLs
  the \<^verbatim>\<open>gnostic\<close> process was started on, both oldest first.
\<close>

record state =
  heap :: "FileDescriptorProto list"
  cachedDescriptors :: "GeneratedMessage \<Rightarrow> FileDescriptorProto"
  generatedSymbolicReferences :: "string \<rightharpoonup> bool"
  generatedMessages :: "string \<rightharpoonup> string"
  shouldRenderEmptyImport :: bool
  logged :: "string list"
  executed :: "string list"

text \<open>\<^verbatim>\<open>&dpb.FileDescriptorProto{...}\<close>: a fresh address, after all the others.\<close>

definition alloc :: "FileDescriptorProto \<Rightarrow> state \<Rightarrow> address \<times> state" where
  "alloc fd st = (length (heap st), st\<lparr>heap := heap st @ [fd]\<rparr>)"

text \<open>\<^verbatim>\<open>descriptor.MessageDescriptorProto\<close> (its first result): the pointer to the
  object the library keeps.\<close>

definition descriptor_MessageDescriptorProto :: "GeneratedMessage \<Rightarrow> fdptr" where
  "descriptor_MessageDescriptorProto m = Cached m"

text \<open>Reading and writing through a pointer.\<close>

fun deref :: "state \<Rightarrow> fdptr \<Rightarrow> FileDescriptorProto" where
  "deref st (Allocated a) = heap st ! a"
| "deref st (Cached m) = cachedDescriptors st m"

fun assign :: "fdptr \<Rightarrow> FileDescriptorProto \<Rightarrow> state \<Rightarrow> state" where
  "assign (Allocated a) fd st = st\<lparr>heap := (heap st)[a := fd]\<rparr>"
| "assign (Cached m) fd st = st\<lparr>cachedDescriptors := (cachedDescriptors st)(m := fd)\<rparr>"

section \<open>Functions of the Go standard library\<close>

text \<open>\<^verbatim>\<open>strings.Contains\<close>: some position of \<open>s\<close> starts with \<open>substr\<close>.\<close>

primrec strings_Contains :: "string \<Rightarrow> string \<Rightarrow> bool" where
  "strings_Contains [] substr = (substr = [])"
| "strings_Contains (c # cs) substr =
     (prefix substr (c # cs) \<or> strings_Contains cs substr)"

text \<open>\<^verbatim>\<open>strings.Split(s, sep)\<close> for a separator of one byte.\<close>

fun strings_Split :: "string \<Rightarrow> char \<Rightarrow> string list" where
  "strings_Split [] sep = [[]]"
| "strings_Split (c # cs) sep =
     (if c = sep then [] # strings_Split cs sep
      else (case strings_Split cs sep of
              [] \<Rightarrow> [[c]]
            | p # ps \<Rightarrow> (c # p) # ps))"

text \<open>\<^verbatim>\<open>strconv.Itoa\<close> on a value that is not negative.\<close>

definition digit :: "nat \<Rightarrow> char" where
  "digit d = char_of (48 + d)"

fun strconv_Itoa :: "nat \<Rightarrow> string" where
  "strconv_Itoa n =
     (if n < 10 then [digit n] else strconv_Itoa (n div 10) @ [digit (n mod 10)])"

text \<open>\<^verbatim>\<open>path.Base\<close>: trailing slashes are removed, then everything up to the last
  slash; an empty path is \<^verbatim>\<open>.\<close> and a path of slashes is \<^verbatim>\<open>/\<close>.\<close>

definition strip_trailing_slashes :: "string \<Rightarrow> string" where
  "strip_trailing_slashes p = rev (dropWhile (\<lambda>c. c = CHR ''/'') (rev p))"

definition after_last_slash :: "string \<Rightarrow> string" where
  "after_last_slash p = rev (takeWhile (\<lambda>c. c \<noteq> CHR ''/'') (rev p))"

definition path_Base :: "string \<Rightarrow> string" where
  "path_Base p =
     (if p = [] then ''.''
      else (let q = after_last_slash (strip_trailing_slashes p)
            in if q = [] then ''/'' else q))"

text \<open>\<^verbatim>\<open>filepath.Ext\<close> (with \<^verbatim>\<open>/\<close> as the separator): the suffix that begins at the
  last dot of the last element of the path, empty when there is no dot.\<close>

fun ext_rev :: "string \<Rightarrow> string \<Rightarrow> string" where
  "ext_rev [] acc = []"
| "ext_rev (c # cs) acc =
     (if c = CHR ''/'' then []
      else if c = CHR ''.'' then c # acc
      else ext_rev cs (c # acc))"

definition filepath_Ext :: "string \<Rightarrow> string" where
  "filepath_Ext p = ext_rev (rev p) []"

definition strings_TrimSuffix :: "string \<Rightarrow> string \<Rightarrow> string" where
  "strings_TrimSuffix s suf =
     (if suffix suf s then take (length s - length suf) s else s)"

declare strconv_Itoa.simps [simp del]

section \<open>The generator: type mapping and field descriptors\<close>

text \<open>\<^verbatim>\<open>getProtobufTypes\<close>, the table behind \<^verbatim>\<open>protoBufScalarTypes\<close>.\<close>

definition getProtobufTypes :: "string \<rightharpoonup> FieldDescriptorProto_Type" where
  "getProtobufTypes =
     [''double'' \<mapsto> TYPE_DOUBLE,
      ''float'' \<mapsto> TYPE_FLOAT,
      ''int64'' \<mapsto> TYPE_INT64,
      ''uint64'' \<mapsto> TYPE_UINT64,
      ''int32'' \<mapsto> TYPE_INT32,
      ''fixed64'' \<mapsto> TYPE_FIXED64,
      ''fixed32'' \<mapsto> TYPE_FIXED32,
      ''bool'' \<mapsto> TYPE_BOOL,
      ''string'' \<mapsto> TYPE_STRING,
      ''bytes'' \<mapsto> TYPE_BYTES,
      ''uint32'' \<mapsto> TYPE_UINT32,
      ''sfixed32'' \<mapsto> TYPE_SFIXED32,
      ''sfixed64'' \<mapsto> TYPE_SFIXED64,
      ''sint32'' \<mapsto> TYPE_SINT32,
      ''sint64'' \<mapsto> TYPE_SINT64]"

definition protoBufScalarTypes :: "string \<rightharpoonup> FieldDescriptorProto_Type" where
  "protoBufScalarTypes = getProtobufTypes"

definition getFieldDescriptorType ::
  "string \<Rightarrow> string list option \<Rightarrow> FieldDescriptorProto_Type" where
  "getFieldDescriptorType nativeType enumValues =
     (case protoBufScalarTypes nativeType of
        Some protoType \<Rightarrow> protoType
      | None \<Rightarrow> if enumValues \<noteq> None then TYPE_ENUM else TYPE_MESSAGE)"

definition getTypeNameForMapValueType :: "string \<Rightarrow> string option" where
  "getTypeNameForMapValueType valueType =
     (case protoBufScalarTypes valueType of
        Some _ \<Rightarrow> None
      | None \<Rightarrow> Some valueType)"

text \<open>A field descriptor with nothing set (\<^verbatim>\<open>&dpb.FieldDescriptorProto{}\<close>).\<close>

definition emptyFieldDescriptor :: FieldDescriptorProto where
  "emptyFieldDescriptor =
     \<lparr>fd_Name = None, fd_Number = None, fd_Label = None, fd_Type = None,
      fd_TypeName = None, fd_Extendee = None\<rparr>"

definition setFieldDescriptorLabel ::
  "FieldDescriptorProto \<Rightarrow> Field \<Rightarrow> FieldDescriptorProto" where
  "setFieldDescriptorLabel fd f =
     (let label = (if f_Kind f = ARRAY \<or> strings_Contains (f_NativeType f) ''map''
                   then LABEL_REPEATED else LABEL_OPTIONAL)
      in fd\<lparr>fd_Label := Some label\<rparr>)"

text \<open>\<^verbatim>\<open>*fd.Type\<close> is a nil dereference when the type is not set.\<close>

definition setFieldDescriptorTypeName ::
  "state \<Rightarrow> FieldDescriptorProto \<Rightarrow> Field \<Rightarrow> string \<Rightarrow> error + FieldDescriptorProto" where
  "setFieldDescriptorTypeName st fd f packageName =
     (case fd_Type fd of
        None \<Rightarrow> Inl NilPointerPanic
      | Some ty \<Rightarrow>
          (let fd1 = (if ty = TYPE_MESSAGE
                      then fd\<lparr>fd_TypeName :=
                             Some (case generatedMessages st (f_NativeType f) of
                                     Some n \<Rightarrow> n
                                   | None \<Rightarrow> packageName @ ''.'' @ f_NativeType f)\<rparr>
                      else fd)
           in Inr (if ty = TYPE_ENUM
                   then fd1\<lparr>fd_TypeName := Some (f_NativeType f)\<rparr>
                   else fd1)))"

text \<open>The values of an enum, numbered from 0 in the order of the literals.\<close>

fun enumValueDescriptors ::
  "env \<Rightarrow> nat \<Rightarrow> string list \<Rightarrow> EnumValueDescriptorProto list" where
  "enumValueDescriptors E enumCtr [] = []"
| "enumValueDescriptors E enumCtr (v # vs) =
     \<lparr>ev_Name = Some (strings_ToUpper E v), ev_Number = Some (word_of_nat enumCtr)\<rparr>
       # enumValueDescriptors E (Suc enumCtr) vs"

definition buildEnumDescriptorProto :: "env \<Rightarrow> Field \<Rightarrow> EnumDescriptorProto" where
  "buildEnumDescriptorProto E f =
     \<lparr>ed_Name = Some (f_NativeType f),
      ed_Value = enumValueDescriptors E 0
                   (case f_EnumValues f of None \<Rightarrow> [] | Some vs \<Rightarrow> vs)\<rparr>"

text \<open>\<^verbatim>\<open>field.NativeType[11:]\<close> panics when the string has fewer than 11 bytes.\<close>

definition buildKeyValueFields :: "Field \<Rightarrow> error + FieldDescriptorProto list" where
  "buildKeyValueFields field =
     (let keyField = emptyFieldDescriptor
            \<lparr>fd_Name := Some ''key'', fd_Number := Some 1,
             fd_Label := Some LABEL_OPTIONAL, fd_Type := Some TYPE_STRING\<rparr>
      in if length (f_NativeType field) < 11 then Inl SliceBoundsPanic
         else (let valueType = drop 11 (f_NativeType field);
                   valueField = emptyFieldDescriptor
                     \<lparr>fd_Name := Some ''value'', fd_Number := Some 2,
                      fd_Label := Some LABEL_OPTIONAL,
                      fd_Type := Some (getFieldDescriptorType valueType (f_EnumValues field)),
                      fd_TypeName := getTypeNameForMapValueType valueType\<rparr>
               in Inr [keyField, valueField]))"

definition buildMapDescriptorProto :: "Field \<Rightarrow> error + DescriptorProto" where
  "buildMapDescriptorProto field =
     (let n = f_FieldName field @ ''Entry''
      in case buildKeyValueFields field of
           Inl e \<Rightarrow> Inl e
         | Inr kv \<Rightarrow>
             Inr (DescriptorProto (Some n) kv [] [] (Some \<lparr>mo_MapEntry = Some True\<rparr>)))"

section \<open>The generator: validation of request parameters\<close>

definition validatePathParameter :: "Field \<Rightarrow> state \<Rightarrow> state" where
  "validatePathParameter field st =
     (if f_Kind field \<noteq> SCALAR
      then st\<lparr>logged := logged st @
             [''The path parameter with the Name '' @ f_Name field @ '' is invalid. '' @
              ''The path template may refer to one or more fields in the gRPC request message, as'' @
              '' long as each field is a non-repeated field with a primitive (non-message) type. '' @
              ''See: https://github.com/googleapis/googleapis/blob/master/google/api/http.proto#L62 for more information.'']\<rparr>
      else st)"

definition validateQueryParameter :: "Field \<Rightarrow> state \<Rightarrow> state" where
  "validateQueryParameter field st =
     (let isScalar = (protoBufScalarTypes (f_NativeType field) \<noteq> None)
      in if \<not> (f_Kind field = SCALAR \<or>
                (f_Kind field = ARRAY \<and> isScalar) \<or>
                f_Kind field = REFERENCE)
         then st\<lparr>logged := logged st @
                [''The query parameter with the Name '' @ f_Name field @ '' is invalid. '' @
                 ''Note that fields which are mapped to URL query parameters must have a primitive type or'' @
                 '' a repeated primitive type or a non-repeated message type. '' @
                 ''See: https://github.com/googleapis/googleapis/blob/master/google/api/http.proto#L118 for more information.'']\<rparr>
         else st)"

definition isRequestParameter :: "SurfaceType \<Rightarrow> bool" where
  "isRequestParameter t =
     strings_Contains (t_Description t) (t_Name t @ '' holds parameters to'')"

section \<open>The generator: messages\<close>

text \<open>\<^verbatim>\<open>append\<close> to one of the repeated fields of a message descriptor.\<close>

definition append_EnumType :: "DescriptorProto \<Rightarrow> EnumDescriptorProto \<Rightarrow> DescriptorProto" where
  "append_EnumType m e =
     DescriptorProto (dp_Name m) (dp_Field m) (dp_NestedType m) (dp_EnumType m @ [e]) (dp_Options m)"

definition append_NestedType :: "DescriptorProto \<Rightarrow> DescriptorProto \<Rightarrow> DescriptorProto" where
  "append_NestedType m n =
     DescriptorProto (dp_Name m) (dp_Field m) (dp_NestedType m @ [n]) (dp_EnumType m) (dp_Options m)"

definition append_Field :: "DescriptorProto \<Rightarrow> FieldDescriptorProto \<Rightarrow> DescriptorProto" where
  "append_Field m fd =
     DescriptorProto (dp_Name m) (dp_Field m @ [fd]) (dp_NestedType m) (dp_EnumType m) (dp_Options m)"

text \<open>
  The body of the loop over \<^verbatim>\<open>t.Fields\<close> in \<^verbatim>\<open>buildMessagesFromTypes\<close>, for the
  field \<open>f\<close> at index \<open>i\<close>: the state and the message as the iteration leaves them.
  \<^verbatim>\<open>int32(i + 1)\<close> keeps the low 32 bits.  The \<^verbatim>\<open>continue\<close> of a map of arrays
  leaves the message without the field (an enum of the field is added before it).
\<close>

definition buildField ::
  "env \<Rightarrow> string \<Rightarrow> SurfaceType \<Rightarrow> nat \<Rightarrow> Field \<Rightarrow> state \<Rightarrow> DescriptorProto
     \<Rightarrow> error + (state \<times> DescriptorProto)" where
  "buildField E package t i f st message =
     (let st1 = (if isRequestParameter t
                 then (let sta = (if f_Position f = PATH
                                  then validatePathParameter f st else st)
                       in if f_Position f = QUERY
                          then validateQueryParameter f sta else sta)
                 else st);
          message1 = (if f_EnumValues f \<noteq> None
                      then append_EnumType message (buildEnumDescriptorProto E f)
                      else message);
          ctr = (word_of_nat (i + 1) :: 32 word);
          fd0 = emptyFieldDescriptor
                  \<lparr>fd_Number := Some ctr, fd_Name := Some (f_FieldName f),
                   fd_Type := Some (getFieldDescriptorType (f_NativeType f) (f_EnumValues f))\<rparr>;
          fd1 = setFieldDescriptorLabel fd0 f
      in case setFieldDescriptorTypeName st1 fd1 f package of
           Inl e \<Rightarrow> Inl e
         | Inr fieldDescriptor \<Rightarrow>
             if f_Kind f = MAP
             then (if strings_Contains (f_NativeType f) ''map[string][]''
                   then Inr (st1, message1)
                   else (case buildMapDescriptorProto f of
                           Inl e \<Rightarrow> Inl e
                         | Inr mapDescriptorProto \<Rightarrow>
                             Inr (st1,
                                  append_Field
                                    (append_NestedType message1 mapDescriptorProto)
                                    (fieldDescriptor\<lparr>fd_TypeName := dp_Name mapDescriptorProto\<rparr>))))
             else Inr (st1, append_Field message1 fieldDescriptor))"

text \<open>The loop over \<^verbatim>\<open>t.Fields\<close>, from index \<open>i\<close> on.\<close>

fun buildFields ::
  "env \<Rightarrow> string \<Rightarrow> SurfaceType \<Rightarrow> nat \<Rightarrow> Field list \<Rightarrow> state \<Rightarrow> DescriptorProto
     \<Rightarrow> error + (state \<times> DescriptorProto)" where
  "buildFields E package t i [] st message = Inr (st, message)"
| "buildFields E package t i (f # fs) st message =
     (case buildField E package t i f st message of
        Inl e \<Rightarrow> Inl e
      | Inr (st', message') \<Rightarrow> buildFields E package t (Suc i) fs st' message')"

text \<open>One iteration of the loop over \<^verbatim>\<open>renderer.Model.Types\<close>: the message of the
  type \<open>t\<close> is added to the file \<open>descr\<close> and registered in \<^verbatim>\<open>generatedMessages\<close>.\<close>

definition buildMessage ::
  "env \<Rightarrow> string \<Rightarrow> SurfaceType \<Rightarrow> state \<Rightarrow> FileDescriptorProto
     \<Rightarrow> error + (state \<times> FileDescriptorProto)" where
  "buildMessage E package t st descr =
     (case buildFields E package t 0 (t_Fields t) st
             (DescriptorProto (Some (t_TypeName t)) [] [] [] None) of
        Inl e \<Rightarrow> Inl e
      | Inr (st', message) \<Rightarrow>
          Inr (st'\<lparr>generatedMessages :=
                    (generatedMessages st')(t_TypeName t \<mapsto> package @ ''.'' @ t_TypeName t)\<rparr>,
               descr\<lparr>file_MessageType := file_MessageType descr @ [message]\<rparr>))"

fun buildMessages ::
  "env \<Rightarrow> string \<Rightarrow> SurfaceType list \<Rightarrow> state \<Rightarrow> FileDescriptorProto
     \<Rightarrow> error + (state \<times> FileDescriptorProto)" where
  "buildMessages E package [] st descr = Inr (st, descr)"
| "buildMessages E package (t # ts) st descr =
     (case buildMessage E package t st descr of
        Inl e \<Rightarrow> Inl e
      | Inr (st', descr') \<Rightarrow> buildMessages E package ts st' descr')"

text \<open>\<^verbatim>\<open>buildMessagesFromTypes\<close> works on the file descriptor \<open>descr\<close> points to.  The
  loops do not read the store, so the descriptor is read before and written after.\<close>

definition buildMessagesFromTypes :: "env \<Rightarrow> address \<Rightarrow> Renderer \<Rightarrow> state \<Rightarrow> error + state" where
  "buildMessagesFromTypes E descr renderer st =
     (case buildMessages E (r_Package renderer) (Types (r_Model renderer)) st (heap st ! descr) of
        Inl e \<Rightarrow> Inl e
      | Inr (st', d) \<Rightarrow> Inr (st'\<lparr>heap := (heap st')[descr := d]\<rparr>))"

section \<open>The generator: the service\<close>

text \<open>\<^verbatim>\<open>getRequestBodyForRequestParameters\<close>: the last type named \<open>name\<close> (an empty
  type when there is none), and the first of its fields whose position is BODY.\<close>

fun findRequestParameterType :: "SurfaceType \<Rightarrow> string \<Rightarrow> SurfaceType list \<Rightarrow> SurfaceType" where
  "findRequestParameterType requestParameterType name [] = requestParameterType"
| "findRequestParameterType requestParameterType name (t # ts) =
     findRequestParameterType (if t_Name t = name then t else requestParameterType) name ts"

fun firstBodyField :: "Field list \<Rightarrow> string option" where
  "firstBodyField [] = None"
| "firstBodyField (f # fs) =
     (if f_Position f = BODY then Some (f_FieldName f) else firstBodyField fs)"

definition getRequestBodyForRequestParameters :: "string \<Rightarrow> SurfaceType list \<Rightarrow> string option" where
  "getRequestBodyForRequestParameters name types =
     firstBodyField (t_Fields (findRequestParameterType
        \<lparr>t_Name = [], t_Description = [], t_TypeName = [], t_Fields = []\<rparr> name types))"

definition getHttpRuleForMethod :: "Method \<Rightarrow> string option \<Rightarrow> HttpRule" where
  "getHttpRuleForMethod method body =
     (let httpRule =
        (if m_Method method = ''GET''
           then \<lparr>hr_Pattern = Some (HttpRule_Get (m_Path method)), hr_Body = []\<rparr>
         else if m_Method method = ''POST''
           then \<lparr>hr_Pattern = Some (HttpRule_Post (m_Path method)), hr_Body = []\<rparr>
         else if m_Method method = ''PUT''
           then \<lparr>hr_Pattern = Some (HttpRule_Put (m_Path method)), hr_Body = []\<rparr>
         else if m_Method method = ''PATCH''
           then \<lparr>hr_Pattern = Some (HttpRule_Patch (m_Path method)), hr_Body = []\<rparr>
         else if m_Method method = ''DELETE''
           then \<lparr>hr_Pattern = Some (HttpRule_Delete (m_Path method)), hr_Body = []\<rparr>
         else \<lparr>hr_Pattern = None, hr_Body = []\<rparr>)
      in case body of
           None \<Rightarrow> httpRule
         | Some b \<Rightarrow> httpRule\<lparr>hr_Body := b\<rparr>)"

text \<open>\<^verbatim>\<open>findValidServiceName\<close>: the names of the messages (\<^verbatim>\<open>*m.Name\<close> is a nil
  dereference for a message without a name), then the loop \<^verbatim>\<open>for { ... }\<close>, which
  has no bound of its own: not returning is \<^term>\<open>None\<close>.  \<^verbatim>\<open>ctr\<close> only counts up
  from 0, one step for each name that is taken.\<close>

fun collectMessageNames ::
  "(string \<rightharpoonup> bool) \<Rightarrow> DescriptorProto list \<Rightarrow> error + (string \<rightharpoonup> bool)" where
  "collectMessageNames messageNames [] = Inr messageNames"
| "collectMessageNames messageNames (m # ms) =
     (case dp_Name m of
        None \<Rightarrow> Inl NilPointerPanic
      | Some n \<Rightarrow> collectMessageNames (messageNames(n \<mapsto> True)) ms)"

partial_function (option) findValidServiceName_loop ::
  "(string \<rightharpoonup> bool) \<Rightarrow> string \<Rightarrow> string \<Rightarrow> nat \<Rightarrow> string option" where
  "findValidServiceName_loop messageNames serviceName validServiceName ctr =
     (if \<not> (case messageNames validServiceName of None \<Rightarrow> False | Some b \<Rightarrow> b)
      then Some validServiceName
      else findValidServiceName_loop messageNames serviceName
             (serviceName @ ''Service'' @ (if ctr > 0 then strconv_Itoa ctr else []))
             (ctr + 1))"

declare findValidServiceName_loop.simps [code]

definition findValidServiceName ::
  "DescriptorProto list \<Rightarrow> string \<Rightarrow> (error + string) option" where
  "findValidServiceName messages serviceName =
     (case collectMessageNames Map.empty messages of
        Inl e \<Rightarrow> Some (Inl e)
      | Inr messageNames \<Rightarrow>
          map_option Inr (findValidServiceName_loop messageNames serviceName serviceName 0))"

text \<open>
  The body of the loop over the methods in \<^verbatim>\<open>buildServiceFromMethods\<close>.  \<open>method\<close>
  is a pointer into the surface model: the assignments of the empty type change
  the model, so the method comes back with the descriptor.
\<close>

definition buildMethod ::
  "env \<Rightarrow> SurfaceType list \<Rightarrow> Method \<Rightarrow> state
     \<Rightarrow> error + (state \<times> Method \<times> MethodDescriptorProto)" where
  "buildMethod E types method st =
     (let requestBody = getRequestBodyForRequestParameters (m_ParametersTypeName method) types;
          httpRule = getHttpRuleForMethod method requestBody
      in case proto_SetExtension E httpRule of
           Some err \<Rightarrow> Inl err
         | None \<Rightarrow>
             (let mOptionsDescr = \<lparr>mopt_Http = Some httpRule\<rparr>;
                  (method1, st1) =
                     (if m_ParametersTypeName method = []
                      then (method\<lparr>m_ParametersTypeName := ''google.protobuf.Empty''\<rparr>,
                            st\<lparr>shouldRenderEmptyImport := True\<rparr>)
                      else (method, st));
                  (method2, st2) =
                     (if m_ResponsesTypeName method1 = []
                      then (method1\<lparr>m_ResponsesTypeName := ''google.protobuf.Empty''\<rparr>,
                            st1\<lparr>shouldRenderEmptyImport := True\<rparr>)
                      else (method1, st1));
                  mDescr = \<lparr>md_Name = Some (m_HandlerName method2),
                            md_InputType = Some (m_ParametersTypeName method2),
                            md_OutputType = Some (m_ResponsesTypeName method2),
                            md_Options = Some mOptionsDescr\<rparr>
              in Inr (st2, method2, mDescr)))"

fun buildMethods ::
  "env \<Rightarrow> SurfaceType list \<Rightarrow> Method list \<Rightarrow> state
     \<Rightarrow> error + (state \<times> Method list \<times> MethodDescriptorProto list)" where
  "buildMethods E types [] st = Inr (st, [], [])"
| "buildMethods E types (method # methods) st =
     (case buildMethod E types method st of
        Inl e \<Rightarrow> Inl e
      | Inr (st1, method', mDescr) \<Rightarrow>
          (case buildMethods E types methods st1 of
             Inl e \<Rightarrow> Inl e
           | Inr (st2, methods', mDescrs) \<Rightarrow> Inr (st2, method' # methods', mDescr # mDescrs)))"

definition buildServiceFromMethods ::
  "env \<Rightarrow> address \<Rightarrow> Renderer \<Rightarrow> state \<Rightarrow> (error + (state \<times> Renderer)) option" where
  "buildServiceFromMethods E descr renderer st =
     (let methods = Methods (r_Model renderer)
      in case findValidServiceName (file_MessageType (heap st ! descr))
                (strings_Title E (r_Package renderer)) of
           None \<Rightarrow> None
         | Some (Inl e) \<Rightarrow> Some (Inl e)
         | Some (Inr serviceName) \<Rightarrow>
             (case buildMethods E (Types (r_Model renderer)) methods st of
                Inl e \<Rightarrow> Some (Inl e)
              | Inr (st1, methods', mDescrs) \<Rightarrow>
                  (let service = \<lparr>sd_Name = Some serviceName, sd_Method = mDescrs\<rparr>
                   in Some (Inr (st1\<lparr>heap := (heap st1)[descr := (heap st1 ! descr)\<lparr>file_Service := [service]\<rparr>]\<rparr>,
                                 renderer\<lparr>r_Model := (r_Model renderer)\<lparr>Methods := methods'\<rparr>\<rparr>)))))"

section \<open>The generator: dependencies and symbolic references\<close>

text \<open>\<^verbatim>\<open>getLast\<close>: \<^verbatim>\<open>protos[len(protos)-1]\<close> panics on an empty slice.\<close>

definition getLast :: "fdptr list \<Rightarrow> error + fdptr" where
  "getLast protos = (if protos = [] then Inl IndexPanic else Inr (last protos))"

text \<open>The loop of \<^verbatim>\<open>addDependencies\<close>; \<^verbatim>\<open>fd != lastFdProto\<close> compares pointers, and
  \<^verbatim>\<open>*fd.Name\<close> is a nil dereference for a file without a name.\<close>

fun addDependencies_loop :: "fdptr \<Rightarrow> fdptr list \<Rightarrow> state \<Rightarrow> error + state" where
  "addDependencies_loop lastFdProto [] st = Inr st"
| "addDependencies_loop lastFdProto (fd # fds) st =
     (if fd \<noteq> lastFdProto
      then (case file_Name (deref st fd) of
              None \<Rightarrow> Inl NilPointerPanic
            | Some n \<Rightarrow>
                (let l = deref st lastFdProto;
                     appended = assign lastFdProto
                                  (l\<lparr>file_Dependency := file_Dependency l @ [n]\<rparr>) st
                 in if n = ''google/protobuf/empty.proto''
                    then addDependencies_loop lastFdProto fds
                           (if shouldRenderEmptyImport st then appended else st)
                    else addDependencies_loop lastFdProto fds appended))
      else addDependencies_loop lastFdProto fds st)"

definition addDependencies :: "FileDescriptorSet \<Rightarrow> state \<Rightarrow> error + state" where
  "addDependencies fdSet st =
     (case getLast fdSet of
        Inl e \<Rightarrow> Inl e
      | Inr lastFdProto \<Rightarrow>
          (case addDependencies_loop lastFdProto fdSet st of
             Inl e \<Rightarrow> Inl e
           | Inr st1 \<Rightarrow>
               (let l = deref st1 lastFdProto
                in Inr (assign lastFdProto
                          (l\<lparr>file_Dependency := sort (file_Dependency l)\<rparr>) st1))))"

text \<open>\<^verbatim>\<open>buildDependencies\<close>: the three file descriptors are the objects the library
  keeps, the same in every call; the first is patched into
  \<^verbatim>\<open>google/api/annotations.proto\<close> in place, again in every call
  (\<^verbatim>\<open>annotations.E_Http.Field\<close> is 72295728).\<close>

definition buildDependencies :: "FileDescriptorSet \<Rightarrow> state \<Rightarrow> FileDescriptorSet \<times> state" where
  "buildDependencies fdSet st =
     (let fd = descriptor_MessageDescriptorProto annotations_Http;
          httpExtension = emptyFieldDescriptor
            \<lparr>fd_Name := Some ''http'', fd_Number := Some 72295728,
             fd_Label := Some LABEL_OPTIONAL, fd_Type := Some TYPE_MESSAGE,
             fd_TypeName := Some ''google.api.HttpRule'',
             fd_Extendee := Some ''.google.protobuf.MethodOptions''\<rparr>;
          h = deref st fd;
          st1 = assign fd
                  (h\<lparr>file_Extension := file_Extension h @ [httpExtension],
                     file_Name := Some ''google/api/annotations.proto'',
                     file_Dependency := file_Dependency h @ [''google/protobuf/descriptor.proto'']\<rparr>)
                  st;
          fd2 = descriptor_MessageDescriptorProto empty_Empty;
          fd3 = descriptor_MessageDescriptorProto dpb_DescriptorProto;
          dependencies = [fd, fd2, fd3]
      in (dependencies @ fdSet, st1))"

definition error_Error :: "error \<Rightarrow> string" where
  "error_Error e =
     (case e of
        Failure msg \<Rightarrow> msg
      | NilPointerPanic \<Rightarrow> ''runtime error: invalid memory address or nil pointer dereference''
      | SliceBoundsPanic \<Rightarrow> ''runtime error: slice bounds out of range''
      | IndexPanic \<Rightarrow> ''runtime error: index out of range'')"

definition createOpenAPIDocFromGnosticOutput :: "env \<Rightarrow> 8 word list \<Rightarrow> error + Document" where
  "createOpenAPIDocFromGnosticOutput E binaryInput =
     (let (document, err) = proto_Unmarshal E binaryInput
      in case err of
           Some e \<Rightarrow> if error_Error e \<noteq> ''unexpected EOF'' then Inl e else Inr document
         | None \<Rightarrow> Inr document)"

fun isDuplicate :: "string list \<Rightarrow> string \<Rightarrow> bool" where
  "isDuplicate [] s = False"
| "isDuplicate (s2 # ss) s = (if s = s2 then True else isDuplicate ss s)"

text \<open>\<^verbatim>\<open>strings.Split\<close> returns at least one part, so \<^verbatim>\<open>parts[0]\<close> is the head.\<close>

fun trimAndRemoveDuplicates_loop :: "string list \<Rightarrow> string list \<Rightarrow> string list" where
  "trimAndRemoveDuplicates_loop result [] = result"
| "trimAndRemoveDuplicates_loop result (url # urls) =
     (let parts = strings_Split url (CHR ''#'')
      in trimAndRemoveDuplicates_loop
           (if \<not> isDuplicate result (hd parts) then result @ [hd parts] else result) urls)"

definition trimAndRemoveDuplicates :: "string list \<Rightarrow> string list" where
  "trimAndRemoveDuplicates urls = trimAndRemoveDuplicates_loop [] urls"

section \<open>The generator: one run\<close>

text \<open>
  \<^verbatim>\<open>runFileDescriptorSetGenerator\<close> and \<^verbatim>\<open>buildSymbolicReferences\<close> call each other,
  once for each document a document refers to, and nothing bounds the depth: the
  first argument after the collaborators is the number of nested runs allowed, and
  \<^term>\<open>None\<close> says that it did not suffice.  A run that ends with an error returns no
  descriptor set.  The result of a run is the state, the renderer (its model and
  its \<^verbatim>\<open>SymbolicFdSets\<close> are changed in place) and the descriptor set.
  \<^verbatim>\<open>mainProto\<close> is an object the run allocates: the two builders get its address.
\<close>

function (sequential) runFileDescriptorSetGenerator ::
      "env \<Rightarrow> nat \<Rightarrow> Renderer \<Rightarrow> state
         \<Rightarrow> (error + (state \<times> Renderer \<times> FileDescriptorSet)) option"
  and buildSymbolicReferences ::
      "env \<Rightarrow> nat \<Rightarrow> FileDescriptorSet \<Rightarrow> Renderer \<Rightarrow> state
         \<Rightarrow> (error + (state \<times> Renderer \<times> FileDescriptorSet)) option"
  and buildSymbolicReferences_loop ::
      "env \<Rightarrow> nat \<Rightarrow> string list \<Rightarrow> Renderer \<Rightarrow> fdptr list \<Rightarrow> state
         \<Rightarrow> (error + (state \<times> Renderer \<times> fdptr list)) option"
where
  "runFileDescriptorSetGenerator E 0 renderer st = None"
| "runFileDescriptorSetGenerator E (Suc k) renderer st =
     (let (mainProto, st1) =
            alloc \<lparr>file_Name = Some (r_Package renderer @ ''.proto''),
                   file_Package = Some (r_Package renderer),
                   file_Dependency = [], file_MessageType = [], file_Service = [],
                   file_Extension = [], file_Syntax = Some ''proto3''\<rparr> st;
          (fdSet1, st2) = buildDependencies [Allocated mainProto] st1
      in case buildSymbolicReferences E k fdSet1 renderer st2 of
           None \<Rightarrow> None
         | Some (Inl err) \<Rightarrow> Some (Inl err)
         | Some (Inr (st3, renderer3, fdSet)) \<Rightarrow>
             (case buildMessagesFromTypes E mainProto renderer3 st3 of
                Inl err \<Rightarrow> Some (Inl err)
              | Inr st4 \<Rightarrow>
                  (case buildServiceFromMethods E mainProto renderer3 st4 of
                     None \<Rightarrow> None
                   | Some (Inl err) \<Rightarrow> Some (Inl err)
                   | Some (Inr (st5, renderer5)) \<Rightarrow>
                       (case addDependencies fdSet st5 of
                          Inl err \<Rightarrow> Some (Inl err)
                        | Inr st6 \<Rightarrow> Some (Inr (st6, renderer5, fdSet))))))"
| "buildSymbolicReferences E k fdSet renderer st =
     (case buildSymbolicReferences_loop E k
             (trimAndRemoveDuplicates (SymbolicReferences (r_Model renderer))) renderer [] st of
        None \<Rightarrow> None
      | Some (Inl err) \<Rightarrow> Some (Inl err)
      | Some (Inr (st1, renderer1, symbolicFileDescriptorProtos)) \<Rightarrow>
          Some (Inr (st1, renderer1, symbolicFileDescriptorProtos @ fdSet)))"
| "buildSymbolicReferences_loop E k [] renderer symbolicFileDescriptorProtos st =
     Some (Inr (st, renderer, symbolicFileDescriptorProtos))"
| "buildSymbolicReferences_loop E k (ref # refs) renderer symbolicFileDescriptorProtos st =
     (if generatedSymbolicReferences st ref = None
      then (let st1 = st\<lparr>generatedSymbolicReferences := (generatedSymbolicReferences st)(ref \<mapsto> True),
                         executed := executed st @ [ref]\<rparr>
            in case exec_gnostic E ref of
                 Inl err \<Rightarrow> Some (Inl err)
               | Inr b \<Rightarrow>
                   (case createOpenAPIDocFromGnosticOutput E b of
                      Inl err \<Rightarrow> Some (Inl err)
                    | Inr document \<Rightarrow>
                        (case NewModelFromOpenAPI3 E document ref of
                           Inl err \<Rightarrow> Some (Inl err)
                         | Inr surfaceModel \<Rightarrow>
                             (let inputDocumentType =
                                    (if doc_Openapi document = ''2.0.0''
                                     then ''openapi.v2.Document'' else ''openapi.v3.Document'');
                                  fileName = path_Base ref;
                                  recursiveRenderer =
                                    (NewRenderer E (Prepare E surfaceModel inputDocumentType))
                                      \<lparr>r_Package := strings_TrimSuffix fileName (filepath_Ext fileName)\<rparr>
                              in case runFileDescriptorSetGenerator E k recursiveRenderer st1 of
                                   None \<Rightarrow> None
                                 | Some (Inl err) \<Rightarrow> Some (Inl err)
                                 | Some (Inr (st2, _, newFdSet)) \<Rightarrow>
                                     (case getLast newFdSet of
                                        Inl err \<Rightarrow> Some (Inl err)
                                      | Inr symbolicProto \<Rightarrow>
                                          buildSymbolicReferences_loop E k refs
                                            (renderer\<lparr>r_SymbolicFdSets :=
                                                r_SymbolicFdSets renderer @ [newFdSet]\<rparr>)
                                            (symbolicFileDescriptorProtos @ [symbolicProto])
                                            st2)))))
      else buildSymbolicReferences_loop E k refs renderer symbolicFileDescriptorProtos st)"

  by pat_completeness auto
termination
  by (relation "measures [
      (\<lambda>x. case x of Inl (E, k, r, st) \<Rightarrow> k
                    | Inr (Inl (E, k, fs, r, st)) \<Rightarrow> k
                    | Inr (Inr (E, k, refs, r, sy, st)) \<Rightarrow> k),
      (\<lambda>x. case x of Inl _ \<Rightarrow> 0 | Inr (Inl _) \<Rightarrow> 2 | Inr (Inr _) \<Rightarrow> 1),
      (\<lambda>x. case x of Inl _ \<Rightarrow> 0 | Inr (Inl _) \<Rightarrow> 0
                    | Inr (Inr (E, k, refs, r, sy, st)) \<Rightarrow> length refs)]") auto

section \<open>Collaborators and inputs for the examples\<close>

text \<open>
  The theorems below hold for all collaborators.  Their instances are computed with
  the following ones: ASCII versions of \<^verbatim>\<open>strings.ToUpper\<close> and \<^verbatim>\<open>strings.Title\<close>
  (a word begins after a byte that is no letter, digit or underscore), a
  \<^verbatim>\<open>gnostic\<close> that answers with the encoding of a document that has the field
  \<^verbatim>\<open>openapi\<close> only, a decoder of the wire format, a table \<open>world\<close> from URLs to the
  surface models of their documents, and, for the file descriptors the library keeps,
  files that have their names only.
\<close>

definition ascii_upper :: "char \<Rightarrow> char" where
  "ascii_upper c =
     (if CHR ''a'' \<le> c \<and> c \<le> CHR ''z'' then char_of (of_char c - (32::nat)) else c)"

definition ascii_ToUpper :: "string \<Rightarrow> string" where
  "ascii_ToUpper s = map ascii_upper s"

definition ascii_letter_or_digit :: "char \<Rightarrow> bool" where
  "ascii_letter_or_digit c =
     ((CHR ''a'' \<le> c \<and> c \<le> CHR ''z'') \<or> (CHR ''A'' \<le> c \<and> c \<le> CHR ''Z'') \<or>
      (CHR ''0'' \<le> c \<and> c \<le> CHR ''9'') \<or> c = CHR ''_'')"

fun ascii_Title_from :: "bool \<Rightarrow> string \<Rightarrow> string" where
  "ascii_Title_from atStart [] = []"
| "ascii_Title_from atStart (c # cs) =
     (if atStart then ascii_upper c else c) # ascii_Title_from (\<not> ascii_letter_or_digit c) cs"

definition ascii_Title :: "string \<Rightarrow> string" where
  "ascii_Title s = ascii_Title_from True s"

definition emptyFile :: "string \<Rightarrow> FileDescriptorProto" where
  "emptyFile n =
     \<lparr>file_Name = Some n, file_Package = None, file_Dependency = [], file_MessageType = [],
      file_Service = [], file_Extension = [], file_Syntax = None\<rparr>"

text \<open>
  The decoder of the examples reads the wire format of protocol buffers as
  \<^verbatim>\<open>proto.Unmarshal\<close> does on an \<^verbatim>\<open>openapiv3.Document\<close> that was reset: the input is a
  sequence of fields, each a tag (a varint: eight times the number of the field plus
  the wire type) and a value.  A varint has seven bits to the byte, the lowest
  first, and the top bit set on every byte but its last (the bound of 64 bits is left
  out).  Field 1 with wire type 2, a length and that many bytes, is the string
  \<^verbatim>\<open>openapi\<close>.  Any other field is passed over by its wire type (0: a varint, 1: eight
  bytes, 2: a length and that many bytes, 5: four bytes) and kept undecoded in
  \<open>doc_Rest\<close>; the decoder of the examples does not look into the nested messages and
  does not check strings to be UTF-8.  Input that ends inside a field gives the
  error \<^verbatim>\<open>io.ErrUnexpectedEOF\<close>, whose message is \<^verbatim>\<open>unexpected EOF\<close>, and the fields
  read before it stay in the document.  The field number 0 and the other wire types
  are taken as malformed input.
\<close>

fun decodeVarint :: "8 word list \<Rightarrow> (nat \<times> 8 word list) option" where
  "decodeVarint [] = None"
| "decodeVarint (b # bs) =
     (if b < 128 then Some (unat b, bs)
      else (case decodeVarint bs of
              None \<Rightarrow> None
            | Some (x, rest) \<Rightarrow> Some (unat b - 128 + 128 * x, rest)))"

definition bytesToString :: "8 word list \<Rightarrow> string" where
  "bytesToString b = map (\<lambda>w. char_of (unat w)) b"

definition io_ErrUnexpectedEOF :: error where
  "io_ErrUnexpectedEOF = Failure ''unexpected EOF''"

definition errDecode :: error where
  "errDecode = Failure ''proto: cannot parse invalid wire-format data''"

definition unknownField :: "8 word list \<Rightarrow> Document \<Rightarrow> Document" where
  "unknownField raw document = document\<lparr>doc_Rest := doc_Rest document @ bytesToString raw\<rparr>"

function unmarshalDocument :: "8 word list \<Rightarrow> Document \<Rightarrow> Document \<times> error option" where
  "unmarshalDocument [] document = (document, None)"
| "unmarshalDocument (b # bs) document =
     (case decodeVarint (b # bs) of
        None \<Rightarrow> (document, Some io_ErrUnexpectedEOF)
      | Some (tag, b1) \<Rightarrow>
          (let num = tag div 8; wire = tag mod 8
           in if num = 0 then (document, Some errDecode)
              else if wire = 0
              then (case decodeVarint b1 of
                      None \<Rightarrow> (document, Some io_ErrUnexpectedEOF)
                    | Some (v, b2) \<Rightarrow>
                        unmarshalDocument b2
                          (unknownField (take (length (b # bs) - length b2) (b # bs)) document))
              else if wire = 1
              then (if length b1 < 8 then (document, Some io_ErrUnexpectedEOF)
                    else unmarshalDocument (drop 8 b1)
                           (unknownField (take (length (b # bs) - length b1 + 8) (b # bs)) document))
              else if wire = 2
              then (case decodeVarint b1 of
                      None \<Rightarrow> (document, Some io_ErrUnexpectedEOF)
                    | Some (n, b2) \<Rightarrow>
                        if length b2 < n then (document, Some io_ErrUnexpectedEOF)
                        else unmarshalDocument (drop n b2)
                               (if num = 1
                                then document\<lparr>doc_Openapi := bytesToString (take n b2)\<rparr>
                                else unknownField
                                       (take (length (b # bs) - length b2 + n) (b # bs)) document))
              else if wire = 5
              then (if length b1 < 4 then (document, Some io_ErrUnexpectedEOF)
                    else unmarshalDocument (drop 4 b1)
                           (unknownField (take (length (b # bs) - length b1 + 4) (b # bs)) document))
              else (document, Some errDecode)))"
  by pat_completeness auto
termination
proof -
  have shorter: "length rest < length xs" if "decodeVarint xs = Some (x, rest)" for xs x rest
    using that
    by (induction xs arbitrary: x rest) (auto split: if_splits option.splits)
  show ?thesis
    by (relation "measure (\<lambda>(b, document). length b)")
       (auto dest!: shorter simp del: decodeVarint.simps)
qed

definition exampleEnv :: "(string \<rightharpoonup> Model) \<Rightarrow> env" where
  "exampleEnv world =
     \<lparr>exec_gnostic = (\<lambda>ref. Inr [10, 5, 51, 46, 48, 46, 48]),
      proto_Unmarshal = (\<lambda>b. unmarshalDocument b \<lparr>doc_Openapi = [], doc_Rest = []\<rparr>),
      NewModelFromOpenAPI3 = (\<lambda>document ref.
         case world ref of
           None \<Rightarrow> Inl (Failure ''no such document'')
         | Some m \<Rightarrow> Inr m),
      Prepare = (\<lambda>m inputDocumentType. m),
      NewRenderer = (\<lambda>m. \<lparr>r_Model = m, r_Package = [], r_SymbolicFdSets = []\<rparr>),
      proto_SetExtension = (\<lambda>httpRule. None),
      strings_Title = ascii_Title,
      strings_ToUpper = ascii_ToUpper\<rparr>"

fun exampleDescriptors :: "GeneratedMessage \<Rightarrow> FileDescriptorProto" where
  "exampleDescriptors annotations_Http = emptyFile ''google/api/http.proto''"
| "exampleDescriptors empty_Empty = emptyFile ''google/protobuf/empty.proto''"
| "exampleDescriptors dpb_DescriptorProto = emptyFile ''google/protobuf/descriptor.proto''"

text \<open>The state of a process that has not run the generator yet.\<close>

definition initialState :: state where
  "initialState =
     \<lparr>heap = [], cachedDescriptors = exampleDescriptors,
      generatedSymbolicReferences = Map.empty, generatedMessages = Map.empty,
      shouldRenderEmptyImport = False, logged = [], executed = []\<rparr>"

definition scalarField :: "string \<Rightarrow> string \<Rightarrow> Field" where
  "scalarField n ty =
     \<lparr>f_Name = n, f_Kind = SCALAR, f_Position = BODY, f_NativeType = ty,
      f_FieldName = n, f_EnumValues = None\<rparr>"

definition mapField :: "string \<Rightarrow> string \<Rightarrow> Field" where
  "mapField n ty =
     \<lparr>f_Name = n, f_Kind = MAP, f_Position = BODY, f_NativeType = ty,
      f_FieldName = n, f_EnumValues = None\<rparr>"

definition referenceField :: "string \<Rightarrow> string \<Rightarrow> Field" where
  "referenceField n ty =
     \<lparr>f_Name = n, f_Kind = REFERENCE, f_Position = BODY, f_NativeType = ty,
      f_FieldName = n, f_EnumValues = None\<rparr>"

definition typeOf :: "string \<Rightarrow> Field list \<Rightarrow> SurfaceType" where
  "typeOf n fs = \<lparr>t_Name = n, t_Description = [], t_TypeName = n, t_Fields = fs\<rparr>"


definition omittedField :: "Field \<Rightarrow> bool" where
  "omittedField f = (f_Kind f = MAP \<and> strings_Contains (f_NativeType f) ''map[string][]'')"




text \<open>Inputs of the examples: a renderer for a model without references, and the
  state of a process that holds one file descriptor and nothing else.\<close>

definition rendererOf :: "string \<Rightarrow> SurfaceType list \<Rightarrow> Method list \<Rightarrow> string list \<Rightarrow> Renderer" where
  "rendererOf package ts ms refs =
     \<lparr>r_Model = \<lparr>Types = ts, Methods = ms, SymbolicReferences = refs\<rparr>,
      r_Package = package, r_SymbolicFdSets = []\<rparr>"



text \<open>The package a referenced document gets: the base name of its URL without the
  extension.\<close>

definition referencePackage :: "string \<Rightarrow> string" where
  "referencePackage ref = strings_TrimSuffix (path_Base ref) (filepath_Ext (path_Base ref))"

text \<open>The names \<^verbatim>\<open>addDependencies\<close> takes from the files the pointers \<open>fds\<close> point to,
  the target \<open>lastFdProto\<close> apart: every name, but the one of the empty-type file only
  when \<^verbatim>\<open>shouldRenderEmptyImport\<close> is set.\<close>

definition dependencyNames :: "state \<Rightarrow> fdptr \<Rightarrow> fdptr list \<Rightarrow> string list" where
  "dependencyNames st lastFdProto fds =
     concat (map (\<lambda>fd. if fd = lastFdProto then []
                         else (case file_Name (deref st fd) of
                                 None \<Rightarrow> []
                               | Some n \<Rightarrow>
                                   if n = ''google/protobuf/empty.proto'' \<and> \<not> shouldRenderEmptyImport st
                                   then [] else [n])) fds)"

text \<open>Between two states of a run: \<^verbatim>\<open>gnostic\<close> was started on the URLs \<open>new\<close>, each
  once and none of them registered before, all of them registered now.\<close>

definition resolvedBetween :: "state \<Rightarrow> state \<Rightarrow> string list \<Rightarrow> bool" where
  "resolvedBetween st st' new =
     (executed st' = executed st @ new \<and> distinct new \<and>
      set new \<inter> dom (generatedSymbolicReferences st) = {} \<and>
      dom (generatedSymbolicReferences st') = dom (generatedSymbolicReferences st) \<union> set new)"

text \<open>
  The references the loop of \<^verbatim>\<open>buildSymbolicReferences\<close> resolves itself: those that
  are not registered when the loop reaches them.  The loop reaches the first
  reference in the state it starts in, and the next one in the state (and with the
  renderer and the descriptors) the iteration for the one before has left.
\<close>

primrec resolvedHere ::
  "env \<Rightarrow> nat \<Rightarrow> string list \<Rightarrow> Renderer \<Rightarrow> fdptr list \<Rightarrow> state \<Rightarrow> string list" where
  "resolvedHere E k [] renderer symbolicFileDescriptorProtos st = []"
| "resolvedHere E k (ref # refs) renderer symbolicFileDescriptorProtos st =
     (if generatedSymbolicReferences st ref = None then [ref] else []) @
     (case buildSymbolicReferences_loop E k [ref] renderer symbolicFileDescriptorProtos st of
        Some (Inr (st1, renderer1, symbolicFileDescriptorProtos1)) \<Rightarrow>
          resolvedHere E k refs renderer1 symbolicFileDescriptorProtos1 st1
      | _ \<Rightarrow> [])"

text \<open>
  What a call that returned a descriptor set has done, with \<open>st\<close> the state before
  and \<open>st'\<close> the state after.  For the loop over the references \<open>refs\<close>, of which it
  has resolved \<open>direct\<close> itself: the objects the store had are unchanged, the
  library's descriptor of the annotations keeps its name and the other two are
  unchanged, every reference of \<open>refs\<close> is registered, and for each reference of \<open>direct\<close> (they are in
  the order of \<open>refs\<close>, none was registered before, \<^verbatim>\<open>gnostic\<close> was started on all of
  them since) the loop has appended one nested set and one descriptor, the
  descriptor being the last of the set, a new object of the store with the file
  name of the reference.  For a run: the set is the descriptors of the references,
  the three descriptors of the library and, last, the file of the run, which is the
  first object the run has allocated.
\<close>

definition loop_post ::
  "string list \<Rightarrow> Renderer \<Rightarrow> fdptr list \<Rightarrow> state \<Rightarrow> state \<Rightarrow> Renderer \<Rightarrow> fdptr list
     \<Rightarrow> string list \<Rightarrow> bool" where
  "loop_post refs renderer symAcc st st' r' sym' direct =
     (prefix (heap st) (heap st') \<and>
      (\<exists>new. resolvedBetween st st' new) \<and>
      set refs \<subseteq> dom (generatedSymbolicReferences st') \<and>
      cachedDescriptors st' empty_Empty = cachedDescriptors st empty_Empty \<and>
      cachedDescriptors st' dpb_DescriptorProto = cachedDescriptors st dpb_DescriptorProto \<and>
      (file_Name (cachedDescriptors st annotations_Http) = Some ''google/api/annotations.proto''
         \<longrightarrow> file_Name (cachedDescriptors st' annotations_Http) = Some ''google/api/annotations.proto'') \<and>
      (\<exists>sets symNew.
         sym' = symAcc @ symNew \<and>
         r' = renderer\<lparr>r_SymbolicFdSets := r_SymbolicFdSets renderer @ sets\<rparr> \<and>
         subseq direct refs \<and>
         set direct \<inter> dom (generatedSymbolicReferences st) = {} \<and>
         set direct \<subseteq> set (drop (length (executed st)) (executed st')) \<and>
         map last sets = symNew \<and> [] \<notin> set sets \<and>
         map (\<lambda>p. file_Name (deref st' p)) symNew =
           map (\<lambda>r. Some (referencePackage r @ ''.proto'')) direct \<and>
         (\<forall>p \<in> set symNew. \<exists>a. p = Allocated a \<and> length (heap st) \<le> a \<and> a < length (heap st'))))"

definition run_post :: "Renderer \<Rightarrow> state \<Rightarrow> state \<Rightarrow> FileDescriptorSet \<Rightarrow> bool" where
  "run_post renderer st st' fdSet =
     (let a = length (heap st) in
      prefix (heap st) (heap st') \<and>
      (\<exists>new. resolvedBetween st st' new) \<and>
      (\<exists>sym. fdSet = sym @ [Cached annotations_Http, Cached empty_Empty,
                             Cached dpb_DescriptorProto, Allocated a] \<and>
             (\<forall>p \<in> set sym. \<exists>b. p = Allocated b \<and> a < b \<and> b < length (heap st'))) \<and>
      a < length (heap st') \<and>
      file_Name (heap st' ! a) = Some (r_Package renderer @ ''.proto'') \<and>
      file_Package (heap st' ! a) = Some (r_Package renderer) \<and>
      file_Name (cachedDescriptors st' annotations_Http) = Some ''google/api/annotations.proto'' \<and>
      cachedDescriptors st' empty_Empty = cachedDescriptors st empty_Empty \<and>
      cachedDescriptors st' dpb_DescriptorProto = cachedDescriptors st dpb_DescriptorProto \<and>
      file_Dependency (heap st' ! a) = sort (dependencyNames st' (Allocated a) fdSet))"

text \<open>
  The documents of the examples.  In \<open>petsWorld\<close> the document of the package \<open>pets\<close>
  refers, twice with different fragments, to a document whose file is called
  \<^verbatim>\<open>pets.yaml\<close> as well; that document declares a method without parameters.  In
  \<open>siblingsWorld\<close> a document refers to \<^verbatim>\<open>a.yaml\<close>, which has a method without
  parameter and response types, and then to \<^verbatim>\<open>b.yaml\<close>, whose only method names
  both types.  In \<open>chainWorld\<close> a document refers to \<^verbatim>\<open>a.yaml\<close> (with a fragment),
  to \<^verbatim>\<open>b.yaml\<close> and to \<^verbatim>\<open>a.yaml\<close> again, and \<^verbatim>\<open>a.yaml\<close> refers to \<^verbatim>\<open>b.yaml\<close> itself.
\<close>

definition methodOf :: "string \<Rightarrow> string \<Rightarrow> string \<Rightarrow> Method" where
  "methodOf handler parameters responses =
     \<lparr>m_Method = ''GET'', m_Path = ''/'' @ handler, m_HandlerName = handler,
      m_ParametersTypeName = parameters, m_ResponsesTypeName = responses\<rparr>"

definition petsWorld :: "string \<rightharpoonup> Model" where
  "petsWorld =
     [''http://example.com/v2/pets.yaml'' \<mapsto>
        \<lparr>Types = [typeOf ''Pet'' [scalarField ''name'' ''string'']],
         Methods = [methodOf ''ListPets'' [] ''Pet''], SymbolicReferences = []\<rparr>]"

definition petsRenderer :: Renderer where
  "petsRenderer =
     rendererOf ''pets'' [typeOf ''Owner'' [referenceField ''pet'' ''Pet'']]
       [methodOf ''GetOwner'' ''GetOwnerParameters'' ''Owner'']
       [''http://example.com/v2/pets.yaml#/components/schemas/Pet'',
        ''http://example.com/v2/pets.yaml'']"

definition siblingsWorld :: "string \<rightharpoonup> Model" where
  "siblingsWorld =
     [''http://example.com/a.yaml'' \<mapsto>
        \<lparr>Types = [], Methods = [methodOf ''Ping'' [] []], SymbolicReferences = []\<rparr>,
      ''http://example.com/b.yaml'' \<mapsto>
        \<lparr>Types = [], Methods = [methodOf ''GetPet'' ''GetPetParameters'' ''Pet''],
         SymbolicReferences = []\<rparr>]"

definition siblingsRenderer :: Renderer where
  "siblingsRenderer =
     rendererOf ''main'' [] [] [''http://example.com/a.yaml'', ''http://example.com/b.yaml'']"



text \<open>What the examples show of a file: its name, its dependencies, and the input
  and output types of the methods of its services.\<close>

definition fileSummary ::
  "FileDescriptorProto \<Rightarrow> string option \<times> string list \<times> (string option \<times> string option) list" where
  "fileSummary fd =
     (file_Name fd, file_Dependency fd,
      concat (map (\<lambda>s. map (\<lambda>m. (md_InputType m, md_OutputType m)) (sd_Method s))
                (file_Service fd)))"

section \<open>What the message builder adds for a field\<close>


lemma setFieldDescriptorTypeName_ok:
  "fd_Type fd = Some ty \<Longrightarrow>
   \<exists>n. setFieldDescriptorTypeName st fd f pkg = Inr (fd\<lparr>fd_TypeName := n\<rparr>)"
  by (cases "ty = TYPE_MESSAGE"; cases "ty = TYPE_ENUM")
     (auto simp: setFieldDescriptorTypeName_def Let_def intro: exI [of _ "fd_TypeName fd"])


lemma dp_append_simps [simp]:
  "dp_Field (append_Field m fd) = dp_Field m @ [fd]"
  "dp_NestedType (append_Field m fd) = dp_NestedType m"
  "dp_Name (append_Field m fd) = dp_Name m"
  "dp_Field (append_NestedType m n) = dp_Field m"
  "dp_NestedType (append_NestedType m n) = dp_NestedType m @ [n]"
  "dp_Name (append_NestedType m n) = dp_Name m"
  "dp_Field (append_EnumType m e) = dp_Field m"
  "dp_NestedType (append_EnumType m e) = dp_NestedType m"
  "dp_Name (append_EnumType m e) = dp_Name m"
  by (simp_all add: append_Field_def append_NestedType_def append_EnumType_def)

text \<open>One iteration of the loop over the fields, with the three ways it ends: the
  field is left out, a map entry is nested, or the field descriptor alone is added.
  \<open>fd\<close> is the field descriptor as it stands before the test of the kind.\<close>

lemma buildField_eq:
  "\<exists>st1 m1 fd.
     heap st1 = heap st \<and> generatedMessages st1 = generatedMessages st \<and>
     generatedSymbolicReferences st1 = generatedSymbolicReferences st \<and>
     shouldRenderEmptyImport st1 = shouldRenderEmptyImport st \<and> executed st1 = executed st \<and> cachedDescriptors st1 = cachedDescriptors st \<and>
     dp_Field m1 = dp_Field m \<and> dp_NestedType m1 = dp_NestedType m \<and> dp_Name m1 = dp_Name m \<and>
     (\<forall>x. fd_Number (fd\<lparr>fd_TypeName := x\<rparr>) = Some (word_of_nat (Suc i)) \<and>
          fd_Name (fd\<lparr>fd_TypeName := x\<rparr>) = Some (f_FieldName f) \<and>
          fd_Label (fd\<lparr>fd_TypeName := x\<rparr>) =
            Some (if f_Kind f = ARRAY \<or> strings_Contains (f_NativeType f) ''map''
                  then LABEL_REPEATED else LABEL_OPTIONAL)) \<and>
     buildField E pkg t i f st m =
       (if f_Kind f = MAP
        then (if strings_Contains (f_NativeType f) ''map[string][]''
              then Inr (st1, m1)
              else (case buildMapDescriptorProto f of
                      Inl e \<Rightarrow> Inl e
                    | Inr mapDescriptorProto \<Rightarrow>
                        Inr (st1, append_Field (append_NestedType m1 mapDescriptorProto)
                               (fd\<lparr>fd_TypeName := dp_Name mapDescriptorProto\<rparr>))))
        else Inr (st1, append_Field m1 (fd\<lparr>fd_TypeName := fd_TypeName fd\<rparr>)))"
proof -
  let ?fd0 = "emptyFieldDescriptor
                  \<lparr>fd_Number := Some (word_of_nat (i + 1)), fd_Name := Some (f_FieldName f),
                   fd_Type := Some (getFieldDescriptorType (f_NativeType f) (f_EnumValues f))\<rparr>"
  let ?fd1 = "setFieldDescriptorLabel ?fd0 f"
  have ty: "fd_Type ?fd1 = Some (getFieldDescriptorType (f_NativeType f) (f_EnumValues f))"
    by (simp add: setFieldDescriptorLabel_def)
  define st1 where "st1 = (if isRequestParameter t
                 then (let sta = (if f_Position f = PATH
                                  then validatePathParameter f st else st)
                       in if f_Position f = QUERY
                          then validateQueryParameter f sta else sta)
                 else st)"
  have frame: "heap st1 = heap st" "generatedMessages st1 = generatedMessages st"
    "generatedSymbolicReferences st1 = generatedSymbolicReferences st"
    "shouldRenderEmptyImport st1 = shouldRenderEmptyImport st" "executed st1 = executed st \<and> cachedDescriptors st1 = cachedDescriptors st"
    by (simp_all add: st1_def validatePathParameter_def validateQueryParameter_def Let_def)
  from setFieldDescriptorTypeName_ok [OF ty] obtain n where
    n: "setFieldDescriptorTypeName st1 ?fd1 f pkg = Inr (?fd1\<lparr>fd_TypeName := n\<rparr>)"
    by blast
  define m1 where "m1 = (if f_EnumValues f \<noteq> None
                      then append_EnumType m (buildEnumDescriptorProto E f) else m)"
  have m1: "dp_Field m1 = dp_Field m" "dp_NestedType m1 = dp_NestedType m" "dp_Name m1 = dp_Name m"
    by (simp_all add: m1_def)
  define fd where "fd = ?fd1\<lparr>fd_TypeName := n\<rparr>"
  have unfolded: "buildField E pkg t i f st m =
      (if f_Kind f = MAP
       then (if strings_Contains (f_NativeType f) ''map[string][]''
             then Inr (st1, m1)
             else (case buildMapDescriptorProto f of
                     Inl e \<Rightarrow> Inl e
                   | Inr mapDescriptorProto \<Rightarrow>
                       Inr (st1, append_Field (append_NestedType m1 mapDescriptorProto)
                              (fd\<lparr>fd_TypeName := dp_Name mapDescriptorProto\<rparr>))))
       else Inr (st1, append_Field m1 fd))"
    unfolding buildField_def Let_def st1_def [symmetric, unfolded Let_def] m1_def [symmetric] fd_def
    by (simp only: n sum.case)
  have basics: "fd_Number (fd\<lparr>fd_TypeName := x\<rparr>) = Some (word_of_nat (Suc i)) \<and>
    fd_Name (fd\<lparr>fd_TypeName := x\<rparr>) = Some (f_FieldName f) \<and>
    fd_Label (fd\<lparr>fd_TypeName := x\<rparr>) =
       Some (if f_Kind f = ARRAY \<or> strings_Contains (f_NativeType f) ''map''
             then LABEL_REPEATED else LABEL_OPTIONAL)" for x
    by (simp add: fd_def setFieldDescriptorLabel_def)
  have same: "fd\<lparr>fd_TypeName := fd_TypeName fd\<rparr> = fd" by simp
  show ?thesis
    apply (rule exI [of _ st1], rule exI [of _ m1], rule exI [of _ fd])
    apply (intro conjI allI)
          apply (simp_all only: m1 basics same frame)
    apply (rule unfolded)
    done
qed

lemma buildField_result:
  assumes "buildField E pkg t i f st m = Inr (st', m')"
  shows "\<exists>fd. fd_Number fd = Some (word_of_nat (Suc i)) \<and>
              fd_Name fd = Some (f_FieldName f) \<and>
              fd_Label fd = Some (if f_Kind f = ARRAY \<or> strings_Contains (f_NativeType f) ''map''
                                  then LABEL_REPEATED else LABEL_OPTIONAL) \<and>
              dp_Field m' = dp_Field m @ (if omittedField f then [] else [fd]) \<and>
              dp_Name m' = dp_Name m \<and>
              (if f_Kind f = MAP \<and> \<not> omittedField f
               then \<exists>entry. buildMapDescriptorProto f = Inr entry \<and>
                      fd_TypeName fd = dp_Name entry \<and>
                      dp_NestedType m' = dp_NestedType m @ [entry]
               else dp_NestedType m' = dp_NestedType m)"
proof -
  from buildField_eq [of st m i f E pkg t] obtain st1 m1 fd where
    m1: "dp_Field m1 = dp_Field m" "dp_NestedType m1 = dp_NestedType m" "dp_Name m1 = dp_Name m" and
    basics: "\<And>x. fd_Number (fd\<lparr>fd_TypeName := x\<rparr>) = Some (word_of_nat (Suc i)) \<and>
          fd_Name (fd\<lparr>fd_TypeName := x\<rparr>) = Some (f_FieldName f) \<and>
          fd_Label (fd\<lparr>fd_TypeName := x\<rparr>) =
            Some (if f_Kind f = ARRAY \<or> strings_Contains (f_NativeType f) ''map''
                  then LABEL_REPEATED else LABEL_OPTIONAL)" and
    unfolded: "buildField E pkg t i f st m =
       (if f_Kind f = MAP
        then (if strings_Contains (f_NativeType f) ''map[string][]''
              then Inr (st1, m1)
              else (case buildMapDescriptorProto f of
                      Inl e \<Rightarrow> Inl e
                    | Inr mapDescriptorProto \<Rightarrow>
                        Inr (st1, append_Field (append_NestedType m1 mapDescriptorProto)
                               (fd\<lparr>fd_TypeName := dp_Name mapDescriptorProto\<rparr>))))
        else Inr (st1, append_Field m1 (fd\<lparr>fd_TypeName := fd_TypeName fd\<rparr>)))"
    by blast
  show ?thesis
  proof (cases "f_Kind f = MAP")
    case False
    with assms unfolded have "m' = append_Field m1 (fd\<lparr>fd_TypeName := fd_TypeName fd\<rparr>)" by simp
    with False basics [of "fd_TypeName fd"] m1 show ?thesis
      by (intro exI [of _ "fd\<lparr>fd_TypeName := fd_TypeName fd\<rparr>"]) (simp add: omittedField_def)
  next
    case True
    show ?thesis
    proof (cases "strings_Contains (f_NativeType f) ''map[string][]''")
      case True
      with \<open>f_Kind f = MAP\<close> assms unfolded have "m' = m1" by simp
      with True \<open>f_Kind f = MAP\<close> basics [of "fd_TypeName fd"] m1 show ?thesis
        by (intro exI [of _ "fd\<lparr>fd_TypeName := fd_TypeName fd\<rparr>"]) (simp add: omittedField_def)
    next
      case False
      with \<open>f_Kind f = MAP\<close> assms unfolded obtain entry where
        e: "buildMapDescriptorProto f = Inr entry" and
        m': "m' = append_Field (append_NestedType m1 entry) (fd\<lparr>fd_TypeName := dp_Name entry\<rparr>)"
        by (auto split: sum.splits)
      with False \<open>f_Kind f = MAP\<close> basics [of "dp_Name entry"] m1 show ?thesis
        by (intro exI [of _ "fd\<lparr>fd_TypeName := dp_Name entry\<rparr>"]) (simp add: omittedField_def)
    qed
  qed
qed

lemma buildField_frame:
  assumes "buildField E pkg t i f st m = Inr (st', m')"
  shows "heap st' = heap st \<and> generatedMessages st' = generatedMessages st \<and>
     generatedSymbolicReferences st' = generatedSymbolicReferences st \<and>
     shouldRenderEmptyImport st' = shouldRenderEmptyImport st \<and> executed st' = executed st \<and> cachedDescriptors st' = cachedDescriptors st"
proof -
  from buildField_eq [of st m i f E pkg t] obtain st1 m1 fd where
    frame: "heap st1 = heap st" "generatedMessages st1 = generatedMessages st"
      "generatedSymbolicReferences st1 = generatedSymbolicReferences st"
      "shouldRenderEmptyImport st1 = shouldRenderEmptyImport st" "executed st1 = executed st \<and> cachedDescriptors st1 = cachedDescriptors st" and
    unfolded: "buildField E pkg t i f st m =
       (if f_Kind f = MAP
        then (if strings_Contains (f_NativeType f) ''map[string][]''
              then Inr (st1, m1)
              else (case buildMapDescriptorProto f of
                      Inl e \<Rightarrow> Inl e
                    | Inr mapDescriptorProto \<Rightarrow>
                        Inr (st1, append_Field (append_NestedType m1 mapDescriptorProto)
                               (fd\<lparr>fd_TypeName := dp_Name mapDescriptorProto\<rparr>))))
        else Inr (st1, append_Field m1 (fd\<lparr>fd_TypeName := fd_TypeName fd\<rparr>)))"
    by blast
  from assms unfolded have "st' = st1"
    by (auto split: if_splits sum.splits)
  with frame show ?thesis by simp
qed

lemma buildFields_frame:
  "buildFields E pkg t i fs st m = Inr (st', m') \<Longrightarrow>
     heap st' = heap st \<and> generatedMessages st' = generatedMessages st \<and>
     generatedSymbolicReferences st' = generatedSymbolicReferences st \<and>
     shouldRenderEmptyImport st' = shouldRenderEmptyImport st \<and> executed st' = executed st \<and> cachedDescriptors st' = cachedDescriptors st"
proof (induction fs arbitrary: i st m)
  case Nil
  then show ?case by simp
next
  case (Cons f fs)
  from Cons.prems obtain st1 m1 where
    step: "buildField E pkg t i f st m = Inr (st1, m1)" and
    rest: "buildFields E pkg t (Suc i) fs st1 m1 = Inr (st', m')"
    by (auto split: sum.splits)
  from Cons.IH [OF rest] buildField_frame [OF step] show ?case by simp
qed

lemma buildFields_result:
  "buildFields E pkg t i fs st m = Inr (st', m') \<Longrightarrow>
     dp_Name m' = dp_Name m \<and>
     map fd_Number (dp_Field m') =
       map fd_Number (dp_Field m) @
         map (\<lambda>(j, f). Some (word_of_nat (Suc j))) (filter (\<lambda>(j, f). \<not> omittedField f) (enumerate i fs)) \<and>
     map fd_Name (dp_Field m') =
       map fd_Name (dp_Field m) @ map (\<lambda>f. Some (f_FieldName f)) (filter (\<lambda>f. \<not> omittedField f) fs)"
proof (induction fs arbitrary: i st m)
  case Nil
  then show ?case by simp
next
  case (Cons f fs)
  from Cons.prems obtain st1 m1 where
    step: "buildField E pkg t i f st m = Inr (st1, m1)" and
    rest: "buildFields E pkg t (Suc i) fs st1 m1 = Inr (st', m')"
    by (auto split: sum.splits)
  from buildField_result [OF step] obtain fd where
    "fd_Number fd = Some (word_of_nat (Suc i))" "fd_Name fd = Some (f_FieldName f)"
    "dp_Field m1 = dp_Field m @ (if omittedField f then [] else [fd])" "dp_Name m1 = dp_Name m"
    by blast
  with Cons.IH [OF rest] show ?case by simp
qed




lemma buildFields_extends:
  "buildFields E pkg t i fs st m = Inr (st', m') \<Longrightarrow>
     set (dp_Field m) \<subseteq> set (dp_Field m') \<and> set (dp_NestedType m) \<subseteq> set (dp_NestedType m')"
proof (induction fs arbitrary: i st m)
  case Nil
  then show ?case by simp
next
  case (Cons f fs)
  from Cons.prems obtain st1 m1 where
    step: "buildField E pkg t i f st m = Inr (st1, m1)" and
    rest: "buildFields E pkg t (Suc i) fs st1 m1 = Inr (st', m')"
    by (auto split: sum.splits)
  from buildField_result [OF step] have
    "set (dp_Field m) \<subseteq> set (dp_Field m1) \<and> set (dp_NestedType m) \<subseteq> set (dp_NestedType m1)"
    by (auto split: if_splits)
  with Cons.IH [OF rest] show ?case by blast
qed

text \<open>A message built for the type \<open>t\<close>: what the loop over the fields of \<open>t\<close> makes
  of the message that has the name of the type only.\<close>

lemma buildMessage_result:
  assumes "buildMessage E pkg t st descr = Inr (st', descr')"
  shows "\<exists>message st1.
           descr' = descr\<lparr>file_MessageType := file_MessageType descr @ [message]\<rparr> \<and>
           buildFields E pkg t 0 (t_Fields t) st
               (DescriptorProto (Some (t_TypeName t)) [] [] [] None) = Inr (st1, message)"
    and "heap st' = heap st \<and>
         generatedSymbolicReferences st' = generatedSymbolicReferences st \<and>
         shouldRenderEmptyImport st' = shouldRenderEmptyImport st \<and> executed st' = executed st \<and> cachedDescriptors st' = cachedDescriptors st"
proof -
  from assms obtain st1 message where
    fields: "buildFields E pkg t 0 (t_Fields t) st
               (DescriptorProto (Some (t_TypeName t)) [] [] [] None) = Inr (st1, message)" and
    st': "st' = st1\<lparr>generatedMessages :=
                    (generatedMessages st1)(t_TypeName t \<mapsto> pkg @ ''.'' @ t_TypeName t)\<rparr>" and
    descr': "descr' = descr\<lparr>file_MessageType := file_MessageType descr @ [message]\<rparr>"
    by (auto simp: buildMessage_def split: sum.splits)
  from fields descr'
  show "\<exists>message st1.
           descr' = descr\<lparr>file_MessageType := file_MessageType descr @ [message]\<rparr> \<and>
           buildFields E pkg t 0 (t_Fields t) st
               (DescriptorProto (Some (t_TypeName t)) [] [] [] None) = Inr (st1, message)"
    by blast
  from buildFields_frame [OF fields] st'
  show "heap st' = heap st \<and>
         generatedSymbolicReferences st' = generatedSymbolicReferences st \<and>
         shouldRenderEmptyImport st' = shouldRenderEmptyImport st \<and> executed st' = executed st \<and> cachedDescriptors st' = cachedDescriptors st"
    by simp
qed

text \<open>The loop over the types adds one message for each type, in order, and changes
  nothing else of the file; of the state it changes the registry of messages and
  the log.\<close>

lemma buildMessages_result:
  "buildMessages E pkg ts st descr = Inr (st', descr') \<Longrightarrow>
     (\<exists>messages.
        descr' = descr\<lparr>file_MessageType := file_MessageType descr @ messages\<rparr> \<and>
        list_all2 (\<lambda>t message. \<exists>st0 st1.
            buildFields E pkg t 0 (t_Fields t) st0
               (DescriptorProto (Some (t_TypeName t)) [] [] [] None) = Inr (st1, message))
          ts messages) \<and>
     heap st' = heap st \<and>
     generatedSymbolicReferences st' = generatedSymbolicReferences st \<and>
     shouldRenderEmptyImport st' = shouldRenderEmptyImport st \<and> executed st' = executed st \<and> cachedDescriptors st' = cachedDescriptors st"
proof (induction ts arbitrary: st descr)
  case Nil
  then show ?case by simp
next
  case (Cons t ts)
  from Cons.prems obtain st1 d1 where
    step: "buildMessage E pkg t st descr = Inr (st1, d1)" and
    rest: "buildMessages E pkg ts st1 d1 = Inr (st', descr')"
    by (auto split: sum.splits)
  from buildMessage_result(1) [OF step] obtain message sta where
    d1: "d1 = descr\<lparr>file_MessageType := file_MessageType descr @ [message]\<rparr>" and
    message: "buildFields E pkg t 0 (t_Fields t) st
               (DescriptorProto (Some (t_TypeName t)) [] [] [] None) = Inr (sta, message)"
    by blast
  from Cons.IH [OF rest] obtain messages where
    descr': "descr' = d1\<lparr>file_MessageType := file_MessageType d1 @ messages\<rparr>" and
    all: "list_all2 (\<lambda>t message. \<exists>st0 st1.
            buildFields E pkg t 0 (t_Fields t) st0
               (DescriptorProto (Some (t_TypeName t)) [] [] [] None) = Inr (st1, message))
          ts messages" and
    frame: "heap st' = heap st1"
      "generatedSymbolicReferences st' = generatedSymbolicReferences st1"
      "shouldRenderEmptyImport st' = shouldRenderEmptyImport st1" "executed st' = executed st1 \<and> cachedDescriptors st' = cachedDescriptors st1"
    by blast
  from descr' d1 have
    "descr' = descr\<lparr>file_MessageType := file_MessageType descr @ (message # messages)\<rparr>"
    by simp
  moreover from all message have
    "list_all2 (\<lambda>t message. \<exists>st0 st1.
            buildFields E pkg t 0 (t_Fields t) st0
               (DescriptorProto (Some (t_TypeName t)) [] [] [] None) = Inr (st1, message))
       (t # ts) (message # messages)"
    by auto
  ultimately show ?case
    using frame buildMessage_result(2) [OF step] by (simp; blast)
qed

text \<open>\<^verbatim>\<open>buildMessagesFromTypes\<close> on the store.\<close>

lemma buildMessagesFromTypes_result:
  assumes "buildMessagesFromTypes E descr renderer st = Inr st'" and "descr < length (heap st)"
  shows "\<exists>messages.
           heap st' = (heap st)[descr := (heap st ! descr)
              \<lparr>file_MessageType := file_MessageType (heap st ! descr) @ messages\<rparr>] \<and>
           list_all2 (\<lambda>t message. \<exists>st0 st1.
               buildFields E (r_Package renderer) t 0 (t_Fields t) st0
                  (DescriptorProto (Some (t_TypeName t)) [] [] [] None) = Inr (st1, message))
             (Types (r_Model renderer)) messages"
    and "generatedSymbolicReferences st' = generatedSymbolicReferences st \<and>
         shouldRenderEmptyImport st' = shouldRenderEmptyImport st \<and> executed st' = executed st \<and> cachedDescriptors st' = cachedDescriptors st"
proof -
  from assms(1) obtain st1 d where
    loop: "buildMessages E (r_Package renderer) (Types (r_Model renderer)) st (heap st ! descr)
             = Inr (st1, d)" and
    st': "st' = st1\<lparr>heap := (heap st1)[descr := d]\<rparr>"
    by (auto simp: buildMessagesFromTypes_def split: sum.splits)
  from buildMessages_result [OF loop] st'
  show "\<exists>messages.
           heap st' = (heap st)[descr := (heap st ! descr)
              \<lparr>file_MessageType := file_MessageType (heap st ! descr) @ messages\<rparr>] \<and>
           list_all2 (\<lambda>t message. \<exists>st0 st1.
               buildFields E (r_Package renderer) t 0 (t_Fields t) st0
                  (DescriptorProto (Some (t_TypeName t)) [] [] [] None) = Inr (st1, message))
             (Types (r_Model renderer)) messages"
    by auto
  from buildMessages_result [OF loop] st'
  show "generatedSymbolicReferences st' = generatedSymbolicReferences st \<and>
         shouldRenderEmptyImport st' = shouldRenderEmptyImport st \<and> executed st' = executed st \<and> cachedDescriptors st' = cachedDescriptors st"
    by simp
qed

section \<open>The name of the service\<close>











section \<open>What the service builder changes\<close>

lemma buildMethod_result:
  assumes "buildMethod E types method st = Inr (st1, method', mDescr)"
  shows "heap st1 = heap st \<and>
         generatedSymbolicReferences st1 = generatedSymbolicReferences st \<and>
         generatedMessages st1 = generatedMessages st \<and> executed st1 = executed st \<and> cachedDescriptors st1 = cachedDescriptors st \<and>
         shouldRenderEmptyImport st1 =
           (shouldRenderEmptyImport st \<or> m_ParametersTypeName method = [] \<or>
            m_ResponsesTypeName method = []) \<and>
         md_Name mDescr = Some (m_HandlerName method) \<and>
         md_InputType mDescr =
           Some (if m_ParametersTypeName method = [] then ''google.protobuf.Empty''
                 else m_ParametersTypeName method) \<and>
         md_OutputType mDescr =
           Some (if m_ResponsesTypeName method = [] then ''google.protobuf.Empty''
                 else m_ResponsesTypeName method)"
  using assms
  by (cases "m_ParametersTypeName method = []"; cases "m_ResponsesTypeName method = []")
     (auto simp: buildMethod_def Let_def split: option.splits)

lemma buildMethods_result:
  "buildMethods E types ms st = Inr (st', ms', mDescrs) \<Longrightarrow>
     heap st' = heap st \<and>
     generatedSymbolicReferences st' = generatedSymbolicReferences st \<and>
     generatedMessages st' = generatedMessages st \<and> executed st' = executed st \<and> cachedDescriptors st' = cachedDescriptors st \<and>
     shouldRenderEmptyImport st' =
       (shouldRenderEmptyImport st \<or>
        list_ex (\<lambda>method. m_ParametersTypeName method = [] \<or> m_ResponsesTypeName method = []) ms) \<and>
     map md_InputType mDescrs =
       map (\<lambda>method. Some (if m_ParametersTypeName method = [] then ''google.protobuf.Empty''
                             else m_ParametersTypeName method)) ms \<and>
     map md_OutputType mDescrs =
       map (\<lambda>method. Some (if m_ResponsesTypeName method = [] then ''google.protobuf.Empty''
                             else m_ResponsesTypeName method)) ms"
proof (induction ms arbitrary: st ms' mDescrs)
  case Nil
  then show ?case by simp
next
  case (Cons m ms)
  from Cons.prems obtain st1 m1 mDescr rest' ds where
    step: "buildMethod E types m st = Inr (st1, m1, mDescr)" and
    rest: "buildMethods E types ms st1 = Inr (st', rest', ds)" and
    out: "mDescrs = mDescr # ds"
    by (auto split: sum.splits)
  from Cons.IH [OF rest] buildMethod_result [OF step] out show ?case
    by auto
qed

lemma buildServiceFromMethods_result:
  assumes "buildServiceFromMethods E descr renderer st = Some (Inr (st', renderer'))"
  shows "\<exists>serviceName mDescrs.
           findValidServiceName (file_MessageType (heap st ! descr))
             (strings_Title E (r_Package renderer)) = Some (Inr serviceName) \<and>
           heap st' = (heap st)[descr := (heap st ! descr)
             \<lparr>file_Service := [\<lparr>sd_Name = Some serviceName, sd_Method = mDescrs\<rparr>]\<rparr>] \<and>
           map md_InputType mDescrs =
             map (\<lambda>method. Some (if m_ParametersTypeName method = [] then ''google.protobuf.Empty''
                                   else m_ParametersTypeName method)) (Methods (r_Model renderer)) \<and>
           map md_OutputType mDescrs =
             map (\<lambda>method. Some (if m_ResponsesTypeName method = [] then ''google.protobuf.Empty''
                                   else m_ResponsesTypeName method)) (Methods (r_Model renderer))"
    and "generatedSymbolicReferences st' = generatedSymbolicReferences st \<and>
         executed st' = executed st \<and> cachedDescriptors st' = cachedDescriptors st \<and>
         r_SymbolicFdSets renderer' = r_SymbolicFdSets renderer \<and>
         shouldRenderEmptyImport st' =
           (shouldRenderEmptyImport st \<or>
            list_ex (\<lambda>method. m_ParametersTypeName method = [] \<or> m_ResponsesTypeName method = [])
              (Methods (r_Model renderer)))"
proof -
  from assms obtain serviceName st1 ms' mDescrs where
    name: "findValidServiceName (file_MessageType (heap st ! descr))
             (strings_Title E (r_Package renderer)) = Some (Inr serviceName)" and
    loop: "buildMethods E (Types (r_Model renderer)) (Methods (r_Model renderer)) st
             = Inr (st1, ms', mDescrs)" and
    st': "st' = st1\<lparr>heap := (heap st1)[descr := (heap st1 ! descr)
             \<lparr>file_Service := [\<lparr>sd_Name = Some serviceName, sd_Method = mDescrs\<rparr>]\<rparr>]\<rparr>" and
    renderer': "renderer' = renderer\<lparr>r_Model := (r_Model renderer)\<lparr>Methods := ms'\<rparr>\<rparr>"
    by (auto simp: buildServiceFromMethods_def Let_def split: option.splits sum.splits)
  from buildMethods_result [OF loop] name st'
  show "\<exists>serviceName mDescrs.
           findValidServiceName (file_MessageType (heap st ! descr))
             (strings_Title E (r_Package renderer)) = Some (Inr serviceName) \<and>
           heap st' = (heap st)[descr := (heap st ! descr)
             \<lparr>file_Service := [\<lparr>sd_Name = Some serviceName, sd_Method = mDescrs\<rparr>]\<rparr>] \<and>
           map md_InputType mDescrs =
             map (\<lambda>method. Some (if m_ParametersTypeName method = [] then ''google.protobuf.Empty''
                                   else m_ParametersTypeName method)) (Methods (r_Model renderer)) \<and>
           map md_OutputType mDescrs =
             map (\<lambda>method. Some (if m_ResponsesTypeName method = [] then ''google.protobuf.Empty''
                                   else m_ResponsesTypeName method)) (Methods (r_Model renderer))"
    by (intro exI [of _ serviceName] exI [of _ mDescrs]) simp
  from buildMethods_result [OF loop] st' renderer'
  show "generatedSymbolicReferences st' = generatedSymbolicReferences st \<and>
         executed st' = executed st \<and> cachedDescriptors st' = cachedDescriptors st \<and>
         r_SymbolicFdSets renderer' = r_SymbolicFdSets renderer \<and>
         shouldRenderEmptyImport st' =
           (shouldRenderEmptyImport st \<or>
            list_ex (\<lambda>method. m_ParametersTypeName method = [] \<or> m_ResponsesTypeName method = [])
              (Methods (r_Model renderer)))"
    by simp
qed

section \<open>The store and the registry of references along a run\<close>

lemma resolvedBetween_refl: "resolvedBetween st st []"
  by (simp add: resolvedBetween_def)

lemma resolvedBetween_same:
  "executed st' = executed st \<Longrightarrow>
   generatedSymbolicReferences st' = generatedSymbolicReferences st \<Longrightarrow>
   resolvedBetween st0 st new \<Longrightarrow> resolvedBetween st0 st' new"
  by (simp add: resolvedBetween_def)

lemma resolvedBetween_trans:
  assumes "resolvedBetween st st1 new1" and "resolvedBetween st1 st2 new2"
  shows "resolvedBetween st st2 (new1 @ new2)"
  using assms by (auto simp: resolvedBetween_def)

lemma prefix_list_update:
  assumes "prefix xs ys" and "length xs \<le> i"
  shows "prefix xs (ys[i := v])"
proof -
  from assms(1) obtain zs where "ys = xs @ zs" by (auto simp: prefix_def)
  with assms(2) show ?thesis by (simp add: list_update_append)
qed

lemma prefix_nth: "prefix xs ys \<Longrightarrow> i < length xs \<Longrightarrow> ys ! i = xs ! i"
  by (auto simp: prefix_def nth_append)

text \<open>\<^verbatim>\<open>buildDependencies\<close> puts the pointers to the three objects of the library
  before the set, and writes to the first of them only: one more extension, the
  name, one more dependency.\<close>

lemma buildDependencies_result:
  assumes "buildDependencies fdSet st = (fdSet', st')"
  shows "fdSet' = [Cached annotations_Http, Cached empty_Empty, Cached dpb_DescriptorProto] @ fdSet"
    and "heap st' = heap st"
    and "executed st' = executed st"
    and "generatedSymbolicReferences st' = generatedSymbolicReferences st"
    and "shouldRenderEmptyImport st' = shouldRenderEmptyImport st"
    and "file_Name (cachedDescriptors st' annotations_Http) = Some ''google/api/annotations.proto''"
    and "cachedDescriptors st' empty_Empty = cachedDescriptors st empty_Empty"
    and "cachedDescriptors st' dpb_DescriptorProto = cachedDescriptors st dpb_DescriptorProto"
    and "file_Dependency (cachedDescriptors st' annotations_Http) =
           file_Dependency (cachedDescriptors st annotations_Http) @ [''google/protobuf/descriptor.proto'']"
    and "length (file_Extension (cachedDescriptors st' annotations_Http)) =
           Suc (length (file_Extension (cachedDescriptors st annotations_Http)))"
  using assms
  by (auto simp: buildDependencies_def descriptor_MessageDescriptorProto_def Let_def)

text \<open>The loop of \<^verbatim>\<open>addDependencies\<close> appends the names to the dependencies of the
  target and changes nothing else.\<close>

lemma deref_heap_update_other:
  "fd \<noteq> Allocated a \<Longrightarrow> deref (st\<lparr>heap := (heap st)[a := v]\<rparr>) fd = deref st fd"
  by (cases fd) simp_all

lemma dependencyNames_heap_update:
  "dependencyNames (st\<lparr>heap := (heap st)[a := v]\<rparr>) (Allocated a) fds
     = dependencyNames st (Allocated a) fds"
  unfolding dependencyNames_def
  by (rule arg_cong [where f = concat], rule map_cong)
     (auto simp: deref_heap_update_other split: option.splits)

lemma addDependencies_loop_result:
  "addDependencies_loop (Allocated a) fds st = Inr st' \<Longrightarrow> a < length (heap st) \<Longrightarrow>
     st' = st\<lparr>heap := (heap st)[a := (heap st ! a)
              \<lparr>file_Dependency := file_Dependency (heap st ! a) @ dependencyNames st (Allocated a) fds\<rparr>]\<rparr>"
proof (induction fds arbitrary: st)
  case Nil
  then show ?case by (simp add: dependencyNames_def)
next
  case (Cons fd fds)
  show ?case
  proof (cases "fd = Allocated a")
    case True
    with Cons.prems have "addDependencies_loop (Allocated a) fds st = Inr st'" by simp
    from Cons.IH [OF this Cons.prems(2)] True show ?thesis
      by (simp add: dependencyNames_def)
  next
    case False
    with Cons.prems(1) obtain n where n: "file_Name (deref st fd) = Some n"
      by (auto split: option.splits)
    show ?thesis
    proof (cases "n = ''google/protobuf/empty.proto'' \<and> \<not> shouldRenderEmptyImport st")
      case True
      with Cons.prems(1) False n have "addDependencies_loop (Allocated a) fds st = Inr st'"
        by simp
      from Cons.IH [OF this Cons.prems(2)] True False n show ?thesis
        by (simp add: dependencyNames_def)
    next
      case skip: False
      let ?st1 = "st\<lparr>heap := (heap st)[a :=
                     (heap st ! a)\<lparr>file_Dependency := file_Dependency (heap st ! a) @ [n]\<rparr>]\<rparr>"
      from Cons.prems(1) False n skip have rest: "addDependencies_loop (Allocated a) fds ?st1 = Inr st'"
        by (auto simp: Let_def split: if_splits)
      from Cons.prems(2) have valid: "a < length (heap ?st1)" by simp
      have names: "dependencyNames ?st1 (Allocated a) fds = dependencyNames st (Allocated a) fds"
        by (rule dependencyNames_heap_update)
      have here: "dependencyNames st (Allocated a) (fd # fds) = n # dependencyNames st (Allocated a) fds"
        using False n skip by (auto simp: dependencyNames_def)
      from Cons.IH [OF rest valid] Cons.prems(2) show ?thesis
        by (simp add: names here)
    qed
  qed
qed

lemma addDependencies_result:
  assumes "addDependencies fdSet st = Inr st'" and "last fdSet = Allocated a"
    and "a < length (heap st)"
  shows "fdSet \<noteq> []"
    and "st' = st\<lparr>heap := (heap st)[a := (heap st ! a)
              \<lparr>file_Dependency :=
                 sort (file_Dependency (heap st ! a) @ dependencyNames st (Allocated a) fdSet)\<rparr>]\<rparr>"
proof -
  from assms(1) show ne: "fdSet \<noteq> []"
    by (auto simp: addDependencies_def getLast_def split: if_splits)
  with assms(1,2) obtain st1 where
    loop: "addDependencies_loop (Allocated a) fdSet st = Inr st1" and
    st': "st' = st1\<lparr>heap := (heap st1)[a := (heap st1 ! a)
                \<lparr>file_Dependency := sort (file_Dependency (heap st1 ! a))\<rparr>]\<rparr>"
    by (auto simp: addDependencies_def getLast_def Let_def split: sum.splits)
  from addDependencies_loop_result [OF loop assms(3)] st' assms(3)
  show "st' = st\<lparr>heap := (heap st)[a := (heap st ! a)
              \<lparr>file_Dependency :=
                 sort (file_Dependency (heap st ! a) @ dependencyNames st (Allocated a) fdSet)\<rparr>]\<rparr>"
    by simp
qed

section \<open>The steps of a run\<close>

lemma run_postD:
  assumes "run_post renderer st st' fdSet"
  shows "prefix (heap st) (heap st')"
    and "\<exists>new. resolvedBetween st st' new"
    and "\<exists>sym. fdSet = sym @ [Cached annotations_Http, Cached empty_Empty,
                               Cached dpb_DescriptorProto, Allocated (length (heap st))] \<and>
               (\<forall>p \<in> set sym. \<exists>b. p = Allocated b \<and> length (heap st) < b \<and> b < length (heap st'))"
    and "length (heap st) < length (heap st')"
    and "file_Name (heap st' ! length (heap st)) = Some (r_Package renderer @ ''.proto'')"
    and "file_Package (heap st' ! length (heap st)) = Some (r_Package renderer)"
    and "file_Name (cachedDescriptors st' annotations_Http) = Some ''google/api/annotations.proto''"
    and "cachedDescriptors st' empty_Empty = cachedDescriptors st empty_Empty"
    and "cachedDescriptors st' dpb_DescriptorProto = cachedDescriptors st dpb_DescriptorProto"
    and "file_Dependency (heap st' ! length (heap st))
           = sort (dependencyNames st' (Allocated (length (heap st))) fdSet)"
  using assms unfolding run_post_def Let_def by simp_all

lemma loop_postD:
  assumes "loop_post refs renderer symAcc st st' r' sym' direct"
  shows "prefix (heap st) (heap st')"
    and "\<exists>new. resolvedBetween st st' new"
    and "set refs \<subseteq> dom (generatedSymbolicReferences st')"
    and "cachedDescriptors st' empty_Empty = cachedDescriptors st empty_Empty"
    and "cachedDescriptors st' dpb_DescriptorProto = cachedDescriptors st dpb_DescriptorProto"
    and "file_Name (cachedDescriptors st annotations_Http) = Some ''google/api/annotations.proto''
         \<longrightarrow> file_Name (cachedDescriptors st' annotations_Http) = Some ''google/api/annotations.proto''"
    and "\<exists>sets symNew.
         sym' = symAcc @ symNew \<and>
         r' = renderer\<lparr>r_SymbolicFdSets := r_SymbolicFdSets renderer @ sets\<rparr> \<and>
         subseq direct refs \<and>
         set direct \<inter> dom (generatedSymbolicReferences st) = {} \<and>
         set direct \<subseteq> set (drop (length (executed st)) (executed st')) \<and>
         map last sets = symNew \<and> [] \<notin> set sets \<and>
         map (\<lambda>p. file_Name (deref st' p)) symNew =
           map (\<lambda>r. Some (referencePackage r @ ''.proto'')) direct \<and>
         (\<forall>p \<in> set symNew. \<exists>a. p = Allocated a \<and> length (heap st) \<le> a \<and> a < length (heap st'))"
  using assms unfolding loop_post_def by simp_all


text \<open>The loop over the references: a reference that is registered is passed over.\<close>

lemma loop_step_skip:
  assumes "generatedSymbolicReferences st ref \<noteq> None"
    and "loop_post refs renderer symAcc st st' r' sym' direct"
  shows "loop_post (ref # refs) renderer symAcc st st' r' sym' direct"
proof -
  note post = loop_postD [OF assms(2)]
  from post(1) have pre: "prefix (heap st) (heap st')" .
  from post(2) obtain new where new: "resolvedBetween st st' new" ..
  from post(3) have reg: "set refs \<subseteq> dom (generatedSymbolicReferences st')" .
  note cache = post(4,5,6)
  from post(7) obtain sets symNew where
    rest: "sym' = symAcc @ symNew"
      "r' = renderer\<lparr>r_SymbolicFdSets := r_SymbolicFdSets renderer @ sets\<rparr>"
      "set direct \<inter> dom (generatedSymbolicReferences st) = {}"
      "set direct \<subseteq> set (drop (length (executed st)) (executed st'))"
      "map last sets = symNew" "[] \<notin> set sets"
      "map (\<lambda>p. file_Name (deref st' p)) symNew =
           map (\<lambda>r. Some (referencePackage r @ ''.proto'')) direct"
      "\<forall>p \<in> set symNew. \<exists>a. p = Allocated a \<and> length (heap st) \<le> a \<and> a < length (heap st')" and
    sub: "subseq direct refs"
    by blast
  from assms(1) new have "ref \<in> dom (generatedSymbolicReferences st')"
    by (auto simp: resolvedBetween_def)
  with reg have reg': "set (ref # refs) \<subseteq> dom (generatedSymbolicReferences st')" by simp
  from sub have sub': "subseq direct (ref # refs)" by (rule list_emb_Cons)
  from new have A: "\<exists>new. resolvedBetween st st' new" ..
  have B: "\<exists>sets symNew.
         sym' = symAcc @ symNew \<and>
         r' = renderer\<lparr>r_SymbolicFdSets := r_SymbolicFdSets renderer @ sets\<rparr> \<and>
         subseq direct (ref # refs) \<and>
         set direct \<inter> dom (generatedSymbolicReferences st) = {} \<and>
         set direct \<subseteq> set (drop (length (executed st)) (executed st')) \<and>
         map last sets = symNew \<and> [] \<notin> set sets \<and>
         map (\<lambda>p. file_Name (deref st' p)) symNew =
           map (\<lambda>r. Some (referencePackage r @ ''.proto'')) direct \<and>
         (\<forall>p \<in> set symNew. \<exists>a. p = Allocated a \<and> length (heap st) \<le> a \<and> a < length (heap st'))"
    by (rule exI [of _ sets], rule exI [of _ symNew])
       (intro conjI; fact rest sub')
  from pre A reg' cache B show ?thesis
    unfolding loop_post_def by (intro conjI)
qed

text \<open>A reference that is not registered: it is registered, \<^verbatim>\<open>gnostic\<close> is started on
  it, and the nested run adds its set and its file.\<close>

lemma loop_step_resolve:
  assumes unreg: "generatedSymbolicReferences st ref = None"
    and st1: "st1 = st\<lparr>generatedSymbolicReferences := (generatedSymbolicReferences st)(ref \<mapsto> True),
                        executed := executed st @ [ref]\<rparr>"
    and pkg: "r_Package rr = referencePackage ref"
    and run: "run_post rr st1 st2 newFdSet"
    and sp: "getLast newFdSet = Inr sp"
    and loop: "loop_post refs (renderer\<lparr>r_SymbolicFdSets := r_SymbolicFdSets renderer @ [newFdSet]\<rparr>)
                 (symAcc @ [sp]) st2 st' r' sym' direct"
  shows "loop_post (ref # refs) renderer symAcc st st' r' sym' (ref # direct)"
proof -
  let ?a = "length (heap st)"
  from st1 have heap1: "heap st1 = heap st" by simp
  note rp = run_postD [OF run, unfolded heap1]
  from rp(1) have pre2: "prefix (heap st) (heap st2)" .
  from rp(2) obtain new2 where new2: "resolvedBetween st1 st2 new2" ..
  from rp(3) obtain sym2 where
    set2: "newFdSet = sym2 @ [Cached annotations_Http, Cached empty_Empty,
                               Cached dpb_DescriptorProto, Allocated ?a]" by blast
  from rp(4) have len2: "?a < length (heap st2)" .
  from rp(5) have name2: "file_Name (heap st2 ! ?a) = Some (r_Package rr @ ''.proto'')" .
  from sp set2 have sp': "sp = Allocated ?a" "newFdSet \<noteq> []" "last newFdSet = Allocated ?a"
    by (auto simp: getLast_def)
  note lp = loop_postD [OF loop]
  from lp(1) have pre3: "prefix (heap st2) (heap st')" .
  from lp(2) obtain new3 where new3: "resolvedBetween st2 st' new3" ..
  from lp(3) have reg3: "set refs \<subseteq> dom (generatedSymbolicReferences st')" .
  from st1 have cache1: "cachedDescriptors st1 = cachedDescriptors st" by simp
  from rp(8) lp(4) cache1 have
    cacheE: "cachedDescriptors st' empty_Empty = cachedDescriptors st empty_Empty" by simp
  from rp(9) lp(5) cache1 have
    cacheD: "cachedDescriptors st' dpb_DescriptorProto = cachedDescriptors st dpb_DescriptorProto"
    by simp
  from rp(7) lp(6) have
    cacheH: "file_Name (cachedDescriptors st annotations_Http) = Some ''google/api/annotations.proto''
         \<longrightarrow> file_Name (cachedDescriptors st' annotations_Http) = Some ''google/api/annotations.proto''"
    by simp
  from lp(7) obtain sets symNew where
    sym': "sym' = (symAcc @ [sp]) @ symNew" and
    r': "r' = (renderer\<lparr>r_SymbolicFdSets := r_SymbolicFdSets renderer @ [newFdSet]\<rparr>)
            \<lparr>r_SymbolicFdSets :=
               r_SymbolicFdSets (renderer\<lparr>r_SymbolicFdSets := r_SymbolicFdSets renderer @ [newFdSet]\<rparr>)
                 @ sets\<rparr>" and
    sub: "subseq direct refs" and
    dis3: "set direct \<inter> dom (generatedSymbolicReferences st2) = {}" and
    exe3: "set direct \<subseteq> set (drop (length (executed st2)) (executed st'))" and
    lasts: "map last sets = symNew" and ne: "[] \<notin> set sets" and
    names: "map (\<lambda>p. file_Name (deref st' p)) symNew =
           map (\<lambda>r. Some (referencePackage r @ ''.proto'')) direct" and
    bounds: "\<forall>p \<in> set symNew. \<exists>a. p = Allocated a \<and> length (heap st2) \<le> a \<and> a < length (heap st')"
    by blast
  \<comment> \<open>the store\<close>
  from pre2 pre3 have pre: "prefix (heap st) (heap st')" by (rule prefix_order.trans)
  from pre2 have le2: "length (heap st) \<le> length (heap st2)" by (rule prefix_length_le)
  from pre3 have le3: "length (heap st2) \<le> length (heap st')" by (rule prefix_length_le)
  \<comment> \<open>the registry\<close>
  from unreg st1 have "resolvedBetween st st1 [ref]"
    by (auto simp: resolvedBetween_def)
  from resolvedBetween_trans [OF resolvedBetween_trans [OF this new2] new3]
  have new: "resolvedBetween st st' ([ref] @ new2 @ new3)" by simp
  then have "ref \<in> dom (generatedSymbolicReferences st')"
    by (auto simp: resolvedBetween_def)
  with reg3 have reg: "set (ref # refs) \<subseteq> dom (generatedSymbolicReferences st')" by simp
  from new2 st1 have "dom (generatedSymbolicReferences st) \<subseteq> dom (generatedSymbolicReferences st2)"
    by (auto simp: resolvedBetween_def)
  with dis3 have "set direct \<inter> dom (generatedSymbolicReferences st) = {}"
    by blast
  moreover from unreg have "ref \<notin> dom (generatedSymbolicReferences st)"
    by (simp add: domIff)
  ultimately have dis: "set (ref # direct) \<inter> dom (generatedSymbolicReferences st) = {}"
    by simp
  from new2 new3 st1 have
    "executed st2 = (executed st @ [ref]) @ new2" "executed st' = executed st2 @ new3"
    by (simp_all add: resolvedBetween_def)
  then have "drop (length (executed st)) (executed st') = ref # new2 @ new3"
    "drop (length (executed st2)) (executed st') = new3"
    by simp_all
  with exe3 have exe: "set (ref # direct) \<subseteq> set (drop (length (executed st)) (executed st'))"
    by auto
  \<comment> \<open>the sets and the descriptors\<close>
  from sym' sp' have sym: "sym' = symAcc @ (Allocated ?a # symNew)" by simp
  from r' have rend: "r' = renderer\<lparr>r_SymbolicFdSets := r_SymbolicFdSets renderer @ (newFdSet # sets)\<rparr>"
    by simp
  from sub have sub': "subseq (ref # direct) (ref # refs)" by simp
  from lasts sp' have lasts': "map last (newFdSet # sets) = Allocated ?a # symNew" by simp
  from ne sp' have ne': "[] \<notin> set (newFdSet # sets)" by simp
  from pre3 len2 have "heap st' ! ?a = heap st2 ! ?a" by (rule prefix_nth)
  with name2 pkg names have names':
    "map (\<lambda>p. file_Name (deref st' p)) (Allocated ?a # symNew) =
           map (\<lambda>r. Some (referencePackage r @ ''.proto'')) (ref # direct)"
    by simp
  have bounds':
    "\<forall>p \<in> set (Allocated ?a # symNew). \<exists>a. p = Allocated a \<and> length (heap st) \<le> a \<and> a < length (heap st')"
  proof
    fix p assume "p \<in> set (Allocated ?a # symNew)"
    then consider "p = Allocated ?a" | "p \<in> set symNew" by auto
    then show "\<exists>a. p = Allocated a \<and> length (heap st) \<le> a \<and> a < length (heap st')"
    proof cases
      case 1
      with len2 le3 show ?thesis by simp
    next
      case 2
      with bounds obtain b where "p = Allocated b" "length (heap st2) \<le> b" "b < length (heap st')"
        by blast
      with le2 show ?thesis by simp
    qed
  qed
  from new have A: "\<exists>new. resolvedBetween st st' new" ..
  have B: "\<exists>sets symNew.
         sym' = symAcc @ symNew \<and>
         r' = renderer\<lparr>r_SymbolicFdSets := r_SymbolicFdSets renderer @ sets\<rparr> \<and>
         subseq (ref # direct) (ref # refs) \<and>
         set (ref # direct) \<inter> dom (generatedSymbolicReferences st) = {} \<and>
         set (ref # direct) \<subseteq> set (drop (length (executed st)) (executed st')) \<and>
         map last sets = symNew \<and> [] \<notin> set sets \<and>
         map (\<lambda>p. file_Name (deref st' p)) symNew =
           map (\<lambda>r. Some (referencePackage r @ ''.proto'')) (ref # direct) \<and>
         (\<forall>p \<in> set symNew. \<exists>a. p = Allocated a \<and> length (heap st) \<le> a \<and> a < length (heap st'))"
    by (rule exI [of _ "newFdSet # sets"], rule exI [of _ "Allocated ?a # symNew"])
       (intro conjI; fact sym rend sub' dis exe lasts' ne' names' bounds')
  from pre A reg cacheE cacheD cacheH B show ?thesis
    unfolding loop_post_def by (intro conjI)
qed

text \<open>The run itself: the file of the run is allocated first, the descriptors of the
  library are put before it, then come the nested runs, and the three builders work
  on the file of the run only.\<close>

lemma run_step:
  assumes main: "M = \<lparr>file_Name = Some (r_Package renderer @ ''.proto''),
                       file_Package = Some (r_Package renderer),
                       file_Dependency = [], file_MessageType = [], file_Service = [],
                       file_Extension = [], file_Syntax = Some ''proto3''\<rparr>"
    and deps: "buildDependencies [Allocated (length (heap st))] (st\<lparr>heap := heap st @ [M]\<rparr>)
                 = (fdSet1, st2)"
    and refs: "fdSet = symNew @ fdSet1" "loop_post refs renderer [] st2 st3 r3 symNew direct"
    and msgs: "buildMessagesFromTypes E (length (heap st)) r3 st3 = Inr st4"
    and svc: "buildServiceFromMethods E (length (heap st)) r3 st4 = Some (Inr (st5, r5))"
    and add: "addDependencies fdSet st5 = Inr st'"
  shows "run_post renderer st st' fdSet"
proof -
  let ?a = "length (heap st)"
  let ?st1 = "st\<lparr>heap := heap st @ [M]\<rparr>"
  have heap1: "heap ?st1 = heap st @ [M]"
    and exec1: "executed ?st1 = executed st"
    and reg1: "generatedSymbolicReferences ?st1 = generatedSymbolicReferences st"
    and cache1: "cachedDescriptors ?st1 = cachedDescriptors st"
    by simp_all
  \<comment> \<open>after \<^verbatim>\<open>buildDependencies\<close>\<close>
  from buildDependencies_result(1) [OF deps] have
    fdSet1: "fdSet1 = [Cached annotations_Http, Cached empty_Empty,
                       Cached dpb_DescriptorProto, Allocated ?a]"
    by simp
  from buildDependencies_result(2) [OF deps] heap1 have
    heap2: "heap st2 = heap st @ [M]"
    by simp
  from buildDependencies_result(3,4) [OF deps] exec1 reg1 have
    same2: "executed st2 = executed st"
      "generatedSymbolicReferences st2 = generatedSymbolicReferences st"
    by simp_all
  from buildDependencies_result(6,7,8) [OF deps] cache1 have
    cache2: "file_Name (cachedDescriptors st2 annotations_Http) = Some ''google/api/annotations.proto''"
      "cachedDescriptors st2 empty_Empty = cachedDescriptors st empty_Empty"
      "cachedDescriptors st2 dpb_DescriptorProto = cachedDescriptors st dpb_DescriptorProto"
    by simp_all
  from heap2 have len2: "length (heap st2) = Suc ?a" by simp
  from heap2 have pre2: "prefix (heap st) (heap st2)" by simp
  from heap2 have at2: "heap st2 ! ?a = M" by simp
  \<comment> \<open>after the references\<close>
  note lp = loop_postD [OF refs(2)]
  from lp(1) have pre3: "prefix (heap st2) (heap st3)" .
  from lp(2) obtain new where new: "resolvedBetween st2 st3 new" ..
  from lp(4,5,6) cache2 have
    cache3: "file_Name (cachedDescriptors st3 annotations_Http) = Some ''google/api/annotations.proto''"
      "cachedDescriptors st3 empty_Empty = cachedDescriptors st empty_Empty"
      "cachedDescriptors st3 dpb_DescriptorProto = cachedDescriptors st dpb_DescriptorProto"
    by simp_all
  from lp(7) have bounds:
    "\<forall>p \<in> set symNew. \<exists>b. p = Allocated b \<and> length (heap st2) \<le> b \<and> b < length (heap st3)"
    by auto
  from pre3 len2 have len3: "Suc ?a \<le> length (heap st3)"
    by (auto dest: prefix_length_le)
  then have valid3: "?a < length (heap st3)" by simp
  from pre3 len2 have at3: "heap st3 ! ?a = heap st2 ! ?a"
    by (simp add: prefix_nth)
  \<comment> \<open>after the three builders\<close>
  from buildMessagesFromTypes_result(1) [OF msgs valid3] obtain messages where
    heap4: "heap st4 = (heap st3)[?a := (heap st3 ! ?a)
              \<lparr>file_MessageType := file_MessageType (heap st3 ! ?a) @ messages\<rparr>]"
    by blast
  from buildMessagesFromTypes_result(2) [OF msgs valid3] have
    same4: "executed st4 = executed st3"
      "generatedSymbolicReferences st4 = generatedSymbolicReferences st3"
      "cachedDescriptors st4 = cachedDescriptors st3"
    by simp_all
  from buildServiceFromMethods_result(1) [OF svc] obtain serviceName mDescrs where
    heap5: "heap st5 = (heap st4)[?a := (heap st4 ! ?a)
             \<lparr>file_Service := [\<lparr>sd_Name = Some serviceName, sd_Method = mDescrs\<rparr>]\<rparr>]"
    by blast
  from buildServiceFromMethods_result(2) [OF svc] have
    same5: "executed st5 = executed st4"
      "generatedSymbolicReferences st5 = generatedSymbolicReferences st4"
      "cachedDescriptors st5 = cachedDescriptors st4"
    by simp_all
  from refs(1) fdSet1 have last: "last fdSet = Allocated ?a"
    and set: "fdSet = symNew @ [Cached annotations_Http, Cached empty_Empty,
                                Cached dpb_DescriptorProto, Allocated ?a]"
    by simp_all
  from heap4 heap5 valid3 have valid5: "?a < length (heap st5)"
    by simp
  let ?target = "(heap st5 ! ?a)
              \<lparr>file_Dependency :=
                 sort (file_Dependency (heap st5 ! ?a) @ dependencyNames st5 (Allocated ?a) fdSet)\<rparr>"
  from addDependencies_result(2) [OF add last valid5] have
    st': "st' = st5\<lparr>heap := (heap st5)[?a := ?target]\<rparr>"
    by simp
  from heap4 heap5 valid3 at3 at2 have
    target5: "heap st5 ! ?a = M\<lparr>file_MessageType := file_MessageType M @ messages,
                file_Service := [\<lparr>sd_Name = Some serviceName, sd_Method = mDescrs\<rparr>]\<rparr>"
    by simp
  from st' heap4 heap5 have heap': "heap st' = (heap st3)[?a := ?target]"
    by simp
  from st' same4 same5 have cache': "cachedDescriptors st' = cachedDescriptors st3"
    by simp
  \<comment> \<open>the parts of the postcondition\<close>
  from pre2 pre3 have "prefix (heap st) (heap st3)" by (rule prefix_order.trans)
  then have p1: "prefix (heap st) (heap st')"
    unfolding heap' by (rule prefix_list_update) simp
  from new same2 same4 same5 st' have "resolvedBetween st st' new"
    by (simp add: resolvedBetween_def)
  then have p2: "\<exists>new. resolvedBetween st st' new" ..
  from bounds len2 heap' have
    "\<forall>p \<in> set symNew. \<exists>b. p = Allocated b \<and> ?a < b \<and> b < length (heap st')"
    by (auto simp: Suc_le_eq)
  with set have p3: "\<exists>sym. fdSet = sym @ [Cached annotations_Http, Cached empty_Empty,
                             Cached dpb_DescriptorProto, Allocated ?a] \<and>
             (\<forall>p \<in> set sym. \<exists>b. p = Allocated b \<and> ?a < b \<and> b < length (heap st'))"
    by blast
  from valid3 heap' have p4: "?a < length (heap st')" by simp
  from heap' valid3 have target': "heap st' ! ?a = ?target" by simp
  from target' target5 main have
    p5: "file_Name (heap st' ! ?a) = Some (r_Package renderer @ ''.proto'')" and
    p6: "file_Package (heap st' ! ?a) = Some (r_Package renderer)"
    by simp_all
  from cache' cache3 have
    p7: "file_Name (cachedDescriptors st' annotations_Http) = Some ''google/api/annotations.proto''" and
    p8: "cachedDescriptors st' empty_Empty = cachedDescriptors st empty_Empty" and
    p9: "cachedDescriptors st' dpb_DescriptorProto = cachedDescriptors st dpb_DescriptorProto"
    by simp_all
  have "dependencyNames st' (Allocated ?a) fdSet = dependencyNames st5 (Allocated ?a) fdSet"
    unfolding st' by (rule dependencyNames_heap_update)
  with target' target5 main have
    p10: "file_Dependency (heap st' ! ?a) = sort (dependencyNames st' (Allocated ?a) fdSet)"
    by simp
  from p1 p2 p3 p4 p5 p6 p7 p8 p9 p10 show ?thesis
    unfolding run_post_def Let_def by (intro conjI)
qed

lemma loop_post_Nil: "loop_post [] renderer symAcc st st renderer symAcc []"
proof -
  have "\<exists>new. resolvedBetween st st new"
    using resolvedBetween_refl ..
  moreover have "\<exists>sets symNew.
         symAcc = symAcc @ symNew \<and>
         renderer = renderer\<lparr>r_SymbolicFdSets := r_SymbolicFdSets renderer @ sets\<rparr> \<and>
         subseq [] ([] :: string list) \<and>
         set [] \<inter> dom (generatedSymbolicReferences st) = {} \<and>
         set [] \<subseteq> set (drop (length (executed st)) (executed st)) \<and>
         map last sets = symNew \<and> [] \<notin> set sets \<and>
         map (\<lambda>p. file_Name (deref st p)) symNew =
           map (\<lambda>r. Some (referencePackage r @ ''.proto'')) [] \<and>
         (\<forall>p \<in> set symNew. \<exists>a. p = Allocated a \<and> length (heap st) \<le> a \<and> a < length (heap st))"
    by (rule exI [of _ "[]"], rule exI [of _ "[]"]) simp
  ultimately show ?thesis
    unfolding loop_post_def by simp
qed

section \<open>Every run that returns a set satisfies its postcondition\<close>

lemma run_unfold:
  assumes "runFileDescriptorSetGenerator E (Suc k) renderer st = Some (Inr (st', r', fdSet))"
    and "M = \<lparr>file_Name = Some (r_Package renderer @ ''.proto''),
               file_Package = Some (r_Package renderer),
               file_Dependency = [], file_MessageType = [], file_Service = [],
               file_Extension = [], file_Syntax = Some ''proto3''\<rparr>"
  shows "\<exists>fdSet1 st2 st3 r3 st4 st5.
           buildDependencies [Allocated (length (heap st))] (st\<lparr>heap := heap st @ [M]\<rparr>)
             = (fdSet1, st2) \<and>
           buildSymbolicReferences E k fdSet1 renderer st2 = Some (Inr (st3, r3, fdSet)) \<and>
           buildMessagesFromTypes E (length (heap st)) r3 st3 = Inr st4 \<and>
           buildServiceFromMethods E (length (heap st)) r3 st4 = Some (Inr (st5, r')) \<and>
           addDependencies fdSet st5 = Inr st'"
proof -
  obtain fdSet1 st2 where
    deps: "buildDependencies [Allocated (length (heap st))] (st\<lparr>heap := heap st @ [M]\<rparr>)
             = (fdSet1, st2)"
    by (cases "buildDependencies [Allocated (length (heap st))] (st\<lparr>heap := heap st @ [M]\<rparr>)") blast
  have alloc: "alloc M st = (length (heap st), st\<lparr>heap := heap st @ [M]\<rparr>)"
    by (simp add: alloc_def)
  from assms(1) have
    "(case buildSymbolicReferences E k fdSet1 renderer st2 of
           None \<Rightarrow> None
         | Some (Inl err) \<Rightarrow> Some (Inl err)
         | Some (Inr (st3, renderer3, fdSet)) \<Rightarrow>
             (case buildMessagesFromTypes E (length (heap st)) renderer3 st3 of
                Inl err \<Rightarrow> Some (Inl err)
              | Inr st4 \<Rightarrow>
                  (case buildServiceFromMethods E (length (heap st)) renderer3 st4 of
                     None \<Rightarrow> None
                   | Some (Inl err) \<Rightarrow> Some (Inl err)
                   | Some (Inr (st5, renderer5)) \<Rightarrow>
                       (case addDependencies fdSet st5 of
                          Inl err \<Rightarrow> Some (Inl err)
                        | Inr st6 \<Rightarrow> Some (Inr (st6, renderer5, fdSet))))))
      = Some (Inr (st', r', fdSet))"
    unfolding runFileDescriptorSetGenerator.simps assms(2) [symmetric] Let_def
    by (simp only: alloc deps prod.case)
  then obtain st3 r3 st4 st5 where
    "buildSymbolicReferences E k fdSet1 renderer st2 = Some (Inr (st3, r3, fdSet))"
    "buildMessagesFromTypes E (length (heap st)) r3 st3 = Inr st4"
    "buildServiceFromMethods E (length (heap st)) r3 st4 = Some (Inr (st5, r'))"
    "addDependencies fdSet st5 = Inr st'"
    by (auto split: option.splits sum.splits prod.splits)
  with deps show ?thesis by blast
qed

text \<open>One iteration of the loop: a registered reference changes nothing; for one
  that is not registered, the iteration is the nested run.\<close>

lemma loop_single_skip:
  assumes "generatedSymbolicReferences st ref \<noteq> None"
  shows "buildSymbolicReferences_loop E k [ref] renderer symAcc st = Some (Inr (st, renderer, symAcc))"
proof -
  from assms have "(generatedSymbolicReferences st ref = None) = False" by simp
  then show ?thesis
    by (simp only: buildSymbolicReferences_loop.simps if_False)
qed

lemma resolvedHere_skip:
  "generatedSymbolicReferences st ref \<noteq> None \<Longrightarrow>
     resolvedHere E k (ref # refs) renderer symAcc st = resolvedHere E k refs renderer symAcc st"
  by (simp only: resolvedHere.simps loop_single_skip) auto

lemma run_posts:
  "\<forall>st' r' fdSet. runFileDescriptorSetGenerator E k renderer st = Some (Inr (st', r', fdSet))
      \<longrightarrow> run_post renderer st st' fdSet"
  "\<forall>st' r' fdSet'. buildSymbolicReferences E k fdSet0 renderer st = Some (Inr (st', r', fdSet'))
      \<longrightarrow> (\<exists>symNew. fdSet' = symNew @ fdSet0 \<and>
             loop_post (trimAndRemoveDuplicates (SymbolicReferences (r_Model renderer)))
               renderer [] st st' r' symNew
               (resolvedHere E k (trimAndRemoveDuplicates (SymbolicReferences (r_Model renderer)))
                  renderer [] st))"
  "\<forall>st' r' sym'. buildSymbolicReferences_loop E k refs renderer symAcc st = Some (Inr (st', r', sym'))
      \<longrightarrow> loop_post refs renderer symAcc st st' r' sym' (resolvedHere E k refs renderer symAcc st)"
proof (induction E k renderer st and E k fdSet0 renderer st and E k refs renderer symAcc st
       rule: runFileDescriptorSetGenerator_buildSymbolicReferences_buildSymbolicReferences_loop.induct)
  case (1 E renderer st)
  show ?case by simp
next
  case (2 E k renderer st)
  let ?M = "\<lparr>file_Name = Some (r_Package renderer @ ''.proto''),
               file_Package = Some (r_Package renderer),
               file_Dependency = [], file_MessageType = [], file_Service = [],
               file_Extension = [], file_Syntax = Some ''proto3''\<rparr>"
  show ?case
  proof (intro allI impI)
    fix st' r' fdSet
    assume run: "runFileDescriptorSetGenerator E (Suc k) renderer st = Some (Inr (st', r', fdSet))"
    from run_unfold [OF run refl] obtain fdSet1 st2 st3 r3 st4 st5 where
      deps: "buildDependencies [Allocated (length (heap st))] (st\<lparr>heap := heap st @ [?M]\<rparr>)
               = (fdSet1, st2)" and
      refs: "buildSymbolicReferences E k fdSet1 renderer st2 = Some (Inr (st3, r3, fdSet))" and
      msgs: "buildMessagesFromTypes E (length (heap st)) r3 st3 = Inr st4" and
      svc: "buildServiceFromMethods E (length (heap st)) r3 st4 = Some (Inr (st5, r'))" and
      add: "addDependencies fdSet st5 = Inr st'"
      by blast
    have "\<forall>st' r' fdSet'. buildSymbolicReferences E k fdSet1 renderer st2 = Some (Inr (st', r', fdSet'))
      \<longrightarrow> (\<exists>symNew. fdSet' = symNew @ fdSet1 \<and>
             loop_post (trimAndRemoveDuplicates (SymbolicReferences (r_Model renderer)))
               renderer [] st2 st' r' symNew
               (resolvedHere E k (trimAndRemoveDuplicates (SymbolicReferences (r_Model renderer)))
                  renderer [] st2))"
      by (rule "2.IH" [of "alloc ?M st" "length (heap st)" "st\<lparr>heap := heap st @ [?M]\<rparr>" "(fdSet1, st2)"])
         (simp_all add: alloc_def deps)
    with refs obtain symNew where
      "fdSet = symNew @ fdSet1"
      "loop_post (trimAndRemoveDuplicates (SymbolicReferences (r_Model renderer)))
               renderer [] st2 st3 r3 symNew
               (resolvedHere E k (trimAndRemoveDuplicates (SymbolicReferences (r_Model renderer)))
                  renderer [] st2)"
      by blast
    with deps msgs svc add show "run_post renderer st st' fdSet"
      by (intro run_step [OF refl])
  qed
next
  case (3 E k fdSet renderer st)
  show ?case
  proof (intro allI impI)
    fix st' r' fdSet'
    assume "buildSymbolicReferences E k fdSet renderer st = Some (Inr (st', r', fdSet'))"
    then obtain symNew where
      "buildSymbolicReferences_loop E k
         (trimAndRemoveDuplicates (SymbolicReferences (r_Model renderer))) renderer [] st
         = Some (Inr (st', r', symNew))"
      "fdSet' = symNew @ fdSet"
      by (auto split: option.splits sum.splits)
    with 3 show "\<exists>symNew. fdSet' = symNew @ fdSet \<and>
             loop_post (trimAndRemoveDuplicates (SymbolicReferences (r_Model renderer)))
               renderer [] st st' r' symNew
               (resolvedHere E k (trimAndRemoveDuplicates (SymbolicReferences (r_Model renderer)))
                  renderer [] st)"
      by blast
  qed
next
  case (4 E k renderer symAcc st)
  show ?case by (simp add: loop_post_Nil)
next
  case (5 E k ref refs renderer symAcc st)
  show ?case
  proof (intro allI impI)
    fix st' r' sym'
    assume loop: "buildSymbolicReferences_loop E k (ref # refs) renderer symAcc st
                    = Some (Inr (st', r', sym'))"
    show "loop_post (ref # refs) renderer symAcc st st' r' sym'
            (resolvedHere E k (ref # refs) renderer symAcc st)"
    proof (cases "generatedSymbolicReferences st ref = None")
      case False
      with loop have "buildSymbolicReferences_loop E k refs renderer symAcc st
                    = Some (Inr (st', r', sym'))"
        by simp
      with "5.IH"(3) [OF False] have
        "loop_post refs renderer symAcc st st' r' sym' (resolvedHere E k refs renderer symAcc st)"
        by blast
      with False have
        "loop_post (ref # refs) renderer symAcc st st' r' sym' (resolvedHere E k refs renderer symAcc st)"
        by (rule loop_step_skip)
      with resolvedHere_skip [OF False] show ?thesis by simp
    next
      case True
      let ?st1 = "st\<lparr>generatedSymbolicReferences := (generatedSymbolicReferences st)(ref \<mapsto> True),
                        executed := executed st @ [ref]\<rparr>"
      from loop True obtain b document surfaceModel st2 rr' newFdSet sp where
        exec: "exec_gnostic E ref = Inr b" and
        doc: "createOpenAPIDocFromGnosticOutput E b = Inr document" and
        model: "NewModelFromOpenAPI3 E document ref = Inr surfaceModel" and
        run: "runFileDescriptorSetGenerator E k
                ((NewRenderer E (Prepare E surfaceModel
                    (if doc_Openapi document = ''2.0.0''
                     then ''openapi.v2.Document'' else ''openapi.v3.Document'')))
                  \<lparr>r_Package := strings_TrimSuffix (path_Base ref) (filepath_Ext (path_Base ref))\<rparr>)
                ?st1 = Some (Inr (st2, rr', newFdSet))" and
        sp: "getLast newFdSet = Inr sp" and
        rest: "buildSymbolicReferences_loop E k refs
                 (renderer\<lparr>r_SymbolicFdSets := r_SymbolicFdSets renderer @ [newFdSet]\<rparr>)
                 (symAcc @ [sp]) st2 = Some (Inr (st', r', sym'))"
        by (auto simp: Let_def split: sum.splits option.splits prod.splits)
      let ?rr = "(NewRenderer E (Prepare E surfaceModel
                    (if doc_Openapi document = ''2.0.0''
                     then ''openapi.v2.Document'' else ''openapi.v3.Document'')))
                  \<lparr>r_Package := strings_TrimSuffix (path_Base ref) (filepath_Ext (path_Base ref))\<rparr>"
      let ?r1 = "renderer\<lparr>r_SymbolicFdSets := r_SymbolicFdSets renderer @ [newFdSet]\<rparr>"
      have "\<forall>st' r' fdSet. runFileDescriptorSetGenerator E k ?rr ?st1 = Some (Inr (st', r', fdSet))
              \<longrightarrow> run_post ?rr ?st1 st' fdSet"
        by (rule "5.IH"(1) [OF True refl exec doc model refl refl refl])
      with run have rp: "run_post ?rr ?st1 st2 newFdSet" by blast
      have "\<forall>st' r' sym'. buildSymbolicReferences_loop E k refs ?r1 (symAcc @ [sp]) st2
                 = Some (Inr (st', r', sym'))
              \<longrightarrow> loop_post refs ?r1 (symAcc @ [sp]) st2 st' r' sym'
                    (resolvedHere E k refs ?r1 (symAcc @ [sp]) st2)"
        by (rule "5.IH"(2) [OF True refl exec doc model refl refl refl run refl refl refl sp])
      with rest have lp: "loop_post refs ?r1 (symAcc @ [sp]) st2 st' r' sym'
                            (resolvedHere E k refs ?r1 (symAcc @ [sp]) st2)"
        by blast
      have pkg: "r_Package ?rr = referencePackage ref"
        by (simp add: referencePackage_def)
      from True refl pkg rp sp lp have
        post: "loop_post (ref # refs) renderer symAcc st st' r' sym'
                 (ref # resolvedHere E k refs ?r1 (symAcc @ [sp]) st2)"
        by (rule loop_step_resolve)
      from True exec doc model run sp have
        single: "buildSymbolicReferences_loop E k [ref] renderer symAcc st
                   = Some (Inr (st2, ?r1, symAcc @ [sp]))"
        by (simp add: Let_def)
      from True have "resolvedHere E k (ref # refs) renderer symAcc st
                        = ref # resolvedHere E k refs ?r1 (symAcc @ [sp]) st2"
        by (simp only: resolvedHere.simps single) simp
      with post show ?thesis by simp
    qed
  qed
qed

section \<open>Normal forms of the references\<close>










section \<open>The dependencies of the target\<close>



section \<open>Field numbers (C1)\<close>




section \<open>The repetition label (C7)\<close>

text \<open>
  C7.  The label is REPEATED exactly when the kind of the field is ARRAY or the
  native type contains the bytes \<^verbatim>\<open>map\<close> anywhere.  A REFERENCE to the type
  \<^verbatim>\<open>Roadmap\<close> is no array and no map, and the code labels it REPEATED.
\<close>

theorem C7_reference_named_Roadmap_is_repeated:
  "fd_Label (setFieldDescriptorLabel emptyFieldDescriptor (referenceField ''plan'' ''Roadmap''))
     = Some LABEL_REPEATED \<and>
   f_Kind (referenceField ''plan'' ''Roadmap'') = REFERENCE \<and>
   \<not> prefix ''map['' (f_NativeType (referenceField ''plan'' ''Roadmap''))"
  by (simp add: setFieldDescriptorLabel_def referenceField_def)

section \<open>Map entries (C8, C10)\<close>

text \<open>
  C8.  A MAP field of native type \<^verbatim>\<open>map[string]int32\<close>: the iteration of the loop
  over the fields succeeds; it adds the nested message \<^verbatim>\<open><FieldName>Entry\<close> with the
  fields \<^verbatim>\<open>key\<close> (string, number 1) and \<^verbatim>\<open>value\<close> (int32, number 2, no type name)
  and the map-entry option, and one field descriptor, labelled REPEATED, whose type
  name is the name of the entry.  Whenever \<^verbatim>\<open>buildMessagesFromTypes\<close> returns, the
  message of every type that declares such a field holds both.
\<close>

theorem C8_map_string_int32_entry:
  assumes "f_Kind f = MAP" and "f_NativeType f = ''map[string]int32''"
  shows "(\<exists>st1 m' fd.
            buildField E pkg t i f st m = Inr (st1, m') \<and>
            dp_Field m' = dp_Field m @ [fd] \<and>
            fd_Name fd = Some (f_FieldName f) \<and>
            fd_Label fd = Some LABEL_REPEATED \<and>
            fd_TypeName fd = Some (f_FieldName f @ ''Entry'') \<and>
            dp_NestedType m' = dp_NestedType m @
              [DescriptorProto (Some (f_FieldName f @ ''Entry''))
                 [\<lparr>fd_Name = Some ''key'', fd_Number = Some 1, fd_Label = Some LABEL_OPTIONAL,
                   fd_Type = Some TYPE_STRING, fd_TypeName = None, fd_Extendee = None\<rparr>,
                  \<lparr>fd_Name = Some ''value'', fd_Number = Some 2, fd_Label = Some LABEL_OPTIONAL,
                   fd_Type = Some TYPE_INT32, fd_TypeName = None, fd_Extendee = None\<rparr>]
                 [] [] (Some \<lparr>mo_MapEntry = Some True\<rparr>)]) \<and>
         (\<forall>descr renderer st st'.
            buildMessagesFromTypes E descr renderer st = Inr st' \<and> descr < length (heap st) \<and>
            t \<in> set (Types (r_Model renderer)) \<and> f \<in> set (t_Fields t) \<longrightarrow>
            (\<exists>message \<in> set (file_MessageType (heap st' ! descr)).
               dp_Name message = Some (t_TypeName t) \<and>
               DescriptorProto (Some (f_FieldName f @ ''Entry''))
                 [\<lparr>fd_Name = Some ''key'', fd_Number = Some 1, fd_Label = Some LABEL_OPTIONAL,
                   fd_Type = Some TYPE_STRING, fd_TypeName = None, fd_Extendee = None\<rparr>,
                  \<lparr>fd_Name = Some ''value'', fd_Number = Some 2, fd_Label = Some LABEL_OPTIONAL,
                   fd_Type = Some TYPE_INT32, fd_TypeName = None, fd_Extendee = None\<rparr>]
                 [] [] (Some \<lparr>mo_MapEntry = Some True\<rparr>) \<in> set (dp_NestedType message) \<and>
               (\<exists>fd \<in> set (dp_Field message).
                  fd_Name fd = Some (f_FieldName f) \<and>
                  fd_Label fd = Some LABEL_REPEATED \<and>
                  fd_TypeName fd = Some (f_FieldName f @ ''Entry''))))"
proof -
  let ?entry = "DescriptorProto (Some (f_FieldName f @ ''Entry''))
                 [\<lparr>fd_Name = Some ''key'', fd_Number = Some 1, fd_Label = Some LABEL_OPTIONAL,
                   fd_Type = Some TYPE_STRING, fd_TypeName = None, fd_Extendee = None\<rparr>,
                  \<lparr>fd_Name = Some ''value'', fd_Number = Some 2, fd_Label = Some LABEL_OPTIONAL,
                   fd_Type = Some TYPE_INT32, fd_TypeName = None, fd_Extendee = None\<rparr>]
                 [] [] (Some \<lparr>mo_MapEntry = Some True\<rparr>)"
  have entry: "buildMapDescriptorProto f = Inr ?entry"
    by (simp add: buildMapDescriptorProto_def buildKeyValueFields_def assms(2)
          emptyFieldDescriptor_def getFieldDescriptorType_def getTypeNameForMapValueType_def
          protoBufScalarTypes_def getProtobufTypes_def)
  have "map": "strings_Contains (f_NativeType f) ''map''"
    and kept: "\<not> strings_Contains (f_NativeType f) ''map[string][]''"
    by (simp_all add: assms(2))
  from kept have notOmitted: "\<not> omittedField f"
    by (simp add: omittedField_def)
  \<comment> \<open>one iteration, from any state and message\<close>
  have iteration: "\<exists>st1 m' fd.
            buildField E pkg' t' i' f st0 m0 = Inr (st1, m') \<and>
            dp_Field m' = dp_Field m0 @ [fd] \<and>
            fd_Name fd = Some (f_FieldName f) \<and>
            fd_Label fd = Some LABEL_REPEATED \<and>
            fd_TypeName fd = Some (f_FieldName f @ ''Entry'') \<and>
            dp_NestedType m' = dp_NestedType m0 @ [?entry]" for pkg' t' i' st0 m0
  proof -
    from buildField_eq [of st0 m0 i' f E pkg' t'] obtain st1 m1 fd where
      m1: "dp_Field m1 = dp_Field m0" "dp_NestedType m1 = dp_NestedType m0" and
      basics: "\<And>x. fd_Number (fd\<lparr>fd_TypeName := x\<rparr>) = Some (word_of_nat (Suc i')) \<and>
          fd_Name (fd\<lparr>fd_TypeName := x\<rparr>) = Some (f_FieldName f) \<and>
          fd_Label (fd\<lparr>fd_TypeName := x\<rparr>) =
            Some (if f_Kind f = ARRAY \<or> strings_Contains (f_NativeType f) ''map''
                  then LABEL_REPEATED else LABEL_OPTIONAL)" and
      unfolded: "buildField E pkg' t' i' f st0 m0 =
         (if f_Kind f = MAP
          then (if strings_Contains (f_NativeType f) ''map[string][]''
                then Inr (st1, m1)
                else (case buildMapDescriptorProto f of
                        Inl e \<Rightarrow> Inl e
                      | Inr mapDescriptorProto \<Rightarrow>
                          Inr (st1, append_Field (append_NestedType m1 mapDescriptorProto)
                                 (fd\<lparr>fd_TypeName := dp_Name mapDescriptorProto\<rparr>))))
          else Inr (st1, append_Field m1 (fd\<lparr>fd_TypeName := fd_TypeName fd\<rparr>)))"
      by blast
    from unfolded assms(1) kept entry have
      "buildField E pkg' t' i' f st0 m0 =
         Inr (st1, append_Field (append_NestedType m1 ?entry) (fd\<lparr>fd_TypeName := dp_Name ?entry\<rparr>))"
      by simp
    with m1 basics [of "dp_Name ?entry"] "map" show ?thesis
      by (intro exI [of _ st1]
            exI [of _ "append_Field (append_NestedType m1 ?entry) (fd\<lparr>fd_TypeName := dp_Name ?entry\<rparr>)"]
            exI [of _ "fd\<lparr>fd_TypeName := dp_Name ?entry\<rparr>"]) simp
  qed
  \<comment> \<open>the loop over the fields of a type that declares \<open>f\<close>\<close>
  have loop: "?entry \<in> set (dp_NestedType m') \<and>
        (\<exists>fd \<in> set (dp_Field m').
           fd_Name fd = Some (f_FieldName f) \<and> fd_Label fd = Some LABEL_REPEATED \<and>
           fd_TypeName fd = Some (f_FieldName f @ ''Entry''))"
    if "f \<in> set fs" and "buildFields E pkg' t' i' fs st0 m0 = Inr (st', m')"
    for pkg' t' i' fs st0 m0 st' m'
    using that
  proof (induction fs arbitrary: i' st0 m0)
    case Nil
    then show ?case by simp
  next
    case (Cons g fs)
    from Cons.prems(2) obtain st1 m1 where
      step: "buildField E pkg' t' i' g st0 m0 = Inr (st1, m1)" and
      rest: "buildFields E pkg' t' (Suc i') fs st1 m1 = Inr (st', m')"
      by (auto split: sum.splits)
    show ?case
    proof (cases "g = f")
      case True
      from iteration [of pkg' t' i' st0 m0] step True obtain fd where
        fields: "dp_Field m1 = dp_Field m0 @ [fd]" and
        fd: "fd_Name fd = Some (f_FieldName f)"
          "fd_Label fd = Some LABEL_REPEATED" "fd_TypeName fd = Some (f_FieldName f @ ''Entry'')" and
        nested: "dp_NestedType m1 = dp_NestedType m0 @ [?entry]"
        by auto
      from fields have mem1: "fd \<in> set (dp_Field m1)" by simp
      from nested have mem2: "?entry \<in> set (dp_NestedType m1)" by simp
      from buildFields_extends [OF rest] have
        sub1: "set (dp_Field m1) \<subseteq> set (dp_Field m')" and
        sub2: "set (dp_NestedType m1) \<subseteq> set (dp_NestedType m')"
        by simp_all
      from sub1 mem1 have "fd \<in> set (dp_Field m')" by (rule subsetD)
      moreover from sub2 mem2 have "?entry \<in> set (dp_NestedType m')" by (rule subsetD)
      ultimately show ?thesis using fd by blast
    next
      case False
      with Cons.prems(1) have "f \<in> set fs" by simp
      from Cons.IH [OF this rest] show ?thesis .
    qed
  qed
  have messages: "\<exists>message \<in> set (file_MessageType (heap st' ! descr)).
               dp_Name message = Some (t_TypeName t) \<and>
               ?entry \<in> set (dp_NestedType message) \<and>
               (\<exists>fd \<in> set (dp_Field message).
                  fd_Name fd = Some (f_FieldName f) \<and>
                  fd_Label fd = Some LABEL_REPEATED \<and>
                  fd_TypeName fd = Some (f_FieldName f @ ''Entry''))"
    if run: "buildMessagesFromTypes E descr renderer st = Inr st'" and
       valid: "descr < length (heap st)" and
       t: "t \<in> set (Types (r_Model renderer))" and f: "f \<in> set (t_Fields t)"
    for descr renderer st st'
  proof -
    from buildMessagesFromTypes_result(1) [OF run valid] obtain messages where
      heap': "heap st' = (heap st)[descr := (heap st ! descr)
                \<lparr>file_MessageType := file_MessageType (heap st ! descr) @ messages\<rparr>]" and
      built: "list_all2 (\<lambda>t message. \<exists>st0 st1.
                 buildFields E (r_Package renderer) t 0 (t_Fields t) st0
                    (DescriptorProto (Some (t_TypeName t)) [] [] [] None) = Inr (st1, message))
               (Types (r_Model renderer)) messages"
      by blast
    from t obtain k where k: "k < length (Types (r_Model renderer))"
      "Types (r_Model renderer) ! k = t"
      by (auto simp: in_set_conv_nth)
    with built obtain st0 st1 where
      message: "buildFields E (r_Package renderer) t 0 (t_Fields t) st0
                    (DescriptorProto (Some (t_TypeName t)) [] [] [] None) = Inr (st1, messages ! k)"
      and len: "k < length messages"
      by (auto simp: list_all2_conv_all_nth)
    from buildFields_result [OF message] have "dp_Name (messages ! k) = Some (t_TypeName t)"
      by simp
    moreover from len valid heap' have "messages ! k \<in> set (file_MessageType (heap st' ! descr))"
      by simp
    ultimately show ?thesis using loop [OF f message] by blast
  qed
  from iteration [of pkg t i st m] messages show ?thesis by blast
qed

theorem C8_map_string_int32_witness:
  "f_Kind (mapField ''counts'' ''map[string]int32'') = MAP \<and>
   f_NativeType (mapField ''counts'' ''map[string]int32'') = ''map[string]int32'' \<and>
   (\<exists>st1 m' fd.
      buildField (exampleEnv Map.empty) ''pets'' (typeOf ''Pet'' [mapField ''counts'' ''map[string]int32''])
        0 (mapField ''counts'' ''map[string]int32'') initialState
        (DescriptorProto (Some ''Pet'') [] [] [] None) = Inr (st1, m') \<and>
      dp_Field m' = [fd] \<and>
      fd_Name fd = Some ''counts'' \<and>
      fd_Label fd = Some LABEL_REPEATED \<and>
      fd_TypeName fd = Some ''countsEntry'' \<and>
      dp_NestedType m' =
        [DescriptorProto (Some ''countsEntry'')
           [\<lparr>fd_Name = Some ''key'', fd_Number = Some 1, fd_Label = Some LABEL_OPTIONAL,
             fd_Type = Some TYPE_STRING, fd_TypeName = None, fd_Extendee = None\<rparr>,
            \<lparr>fd_Name = Some ''value'', fd_Number = Some 2, fd_Label = Some LABEL_OPTIONAL,
             fd_Type = Some TYPE_INT32, fd_TypeName = None, fd_Extendee = None\<rparr>]
           [] [] (Some \<lparr>mo_MapEntry = Some True\<rparr>)])"
proof -
  have kind: "f_Kind (mapField ''counts'' ''map[string]int32'') = MAP"
    and ty: "f_NativeType (mapField ''counts'' ''map[string]int32'') = ''map[string]int32''"
    and name: "f_FieldName (mapField ''counts'' ''map[string]int32'') = ''counts''"
    by (simp_all add: mapField_def)
  from C8_map_string_int32_entry [OF kind ty, of "exampleEnv Map.empty" "''pets''"
      "typeOf ''Pet'' [mapField ''counts'' ''map[string]int32'']" 0 initialState
      "DescriptorProto (Some ''Pet'') [] [] [] None"]
  show ?thesis
    by (simp add: kind ty name)
qed

text \<open>
  C10.  For a MAP field that is not left out as a map of arrays: with a native type
  of fewer than 11 bytes the slice \<^verbatim>\<open>NativeType[11:]\<close> is out of bounds, and both
  \<^verbatim>\<open>buildKeyValueFields\<close> and the iteration of the message builder panic; with 11
  bytes or more the value type is the native type without its first 11 bytes; and
  when the native type is \<^verbatim>\<open>map[string]\<close> followed by \<open>v\<close>, the value field has the
  descriptor type and the type name of \<open>v\<close>.
\<close>

theorem C10_value_type_drops_eleven_bytes:
  assumes "f_Kind f = MAP" and "\<not> strings_Contains (f_NativeType f) ''map[string][]''"
  shows "(length (f_NativeType f) < 11 \<longrightarrow>
            buildKeyValueFields f = Inl SliceBoundsPanic \<and>
            buildField E pkg t i f st m = Inl SliceBoundsPanic) \<and>
         (11 \<le> length (f_NativeType f) \<longrightarrow>
            (\<exists>kf vf. buildKeyValueFields f = Inr [kf, vf] \<and>
               fd_Type vf = Some (getFieldDescriptorType (drop 11 (f_NativeType f)) (f_EnumValues f)) \<and>
               fd_TypeName vf = getTypeNameForMapValueType (drop 11 (f_NativeType f)))) \<and>
         (\<forall>v. f_NativeType f = ''map[string]'' @ v \<longrightarrow>
            (\<exists>kf vf. buildKeyValueFields f = Inr [kf, vf] \<and>
               fd_Type vf = Some (getFieldDescriptorType v (f_EnumValues f)) \<and>
               fd_TypeName vf = getTypeNameForMapValueType v))"
proof -
  from buildField_eq [of st m i f E pkg t] obtain st1 m1 fd where
    unfolded: "buildField E pkg t i f st m =
       (if f_Kind f = MAP
        then (if strings_Contains (f_NativeType f) ''map[string][]''
              then Inr (st1, m1)
              else (case buildMapDescriptorProto f of
                      Inl e \<Rightarrow> Inl e
                    | Inr mapDescriptorProto \<Rightarrow>
                        Inr (st1, append_Field (append_NestedType m1 mapDescriptorProto)
                               (fd\<lparr>fd_TypeName := dp_Name mapDescriptorProto\<rparr>))))
        else Inr (st1, append_Field m1 (fd\<lparr>fd_TypeName := fd_TypeName fd\<rparr>)))"
    by blast
  have short: "buildKeyValueFields f = Inl SliceBoundsPanic \<and>
      buildField E pkg t i f st m = Inl SliceBoundsPanic" if "length (f_NativeType f) < 11"
    using that assms unfolded
    by (simp add: buildKeyValueFields_def buildMapDescriptorProto_def)
  have long: "\<exists>kf vf. buildKeyValueFields f = Inr [kf, vf] \<and>
               fd_Type vf = Some (getFieldDescriptorType (drop 11 (f_NativeType f)) (f_EnumValues f)) \<and>
               fd_TypeName vf = getTypeNameForMapValueType (drop 11 (f_NativeType f))"
    if "11 \<le> length (f_NativeType f)"
    using that by (simp add: buildKeyValueFields_def Let_def emptyFieldDescriptor_def)
  have pre: "\<exists>kf vf. buildKeyValueFields f = Inr [kf, vf] \<and>
               fd_Type vf = Some (getFieldDescriptorType v (f_EnumValues f)) \<and>
               fd_TypeName vf = getTypeNameForMapValueType v"
    if "f_NativeType f = ''map[string]'' @ v" for v
    using long that by simp
  from short long pre show ?thesis by blast
qed

theorem C10_value_type_witness:
  "f_Kind (mapField ''m'' ''map[int]'') = MAP \<and>
   \<not> strings_Contains (f_NativeType (mapField ''m'' ''map[int]'')) ''map[string][]'' \<and>
   length (f_NativeType (mapField ''m'' ''map[int]'')) < 11 \<and>
   buildKeyValueFields (mapField ''m'' ''map[int]'') = Inl SliceBoundsPanic \<and>
   buildField (exampleEnv Map.empty) ''pets'' (typeOf ''Pet'' []) 0 (mapField ''m'' ''map[int]'')
     initialState (DescriptorProto (Some ''Pet'') [] [] [] None) = Inl SliceBoundsPanic"
proof -
  have kind: "f_Kind (mapField ''m'' ''map[int]'') = MAP"
    and kept: "\<not> strings_Contains (f_NativeType (mapField ''m'' ''map[int]'')) ''map[string][]''"
    and short: "length (f_NativeType (mapField ''m'' ''map[int]'')) < 11"
    by (simp_all add: mapField_def)
  from C10_value_type_drops_eleven_bytes [OF kind kept, of "exampleEnv Map.empty" "''pets''"
      "typeOf ''Pet'' []" 0 initialState "DescriptorProto (Some ''Pet'') [] [] [] None"] short
  show ?thesis
    using kind kept by blast
qed

section \<open>Decoding the output of the collaborator (C9)\<close>




section \<open>The name of the service (C6)\<close>



section \<open>A run of the examples\<close>

text \<open>The run of \<open>petsRenderer\<close> in a fresh process: the descriptor set, the files the
  run has allocated by address, the URLs \<^verbatim>\<open>gnostic\<close> was started on, and the nested
  sets of the renderer.  The nested set holds the same three pointers to the
  descriptors of the library as the set of the run.\<close>

lemma pets_run:
  "(case runFileDescriptorSetGenerator (exampleEnv petsWorld) 2 petsRenderer initialState of
      Some (Inr (st, r, fdSet)) \<Rightarrow>
        Some (fdSet, map fileSummary (heap st), executed st, r_SymbolicFdSets r)
    | _ \<Rightarrow> None)
   = Some ([Allocated 1, Cached annotations_Http, Cached empty_Empty,
            Cached dpb_DescriptorProto, Allocated 0],
           [(Some ''pets.proto'',
             [''google/api/annotations.proto'', ''google/protobuf/descriptor.proto'',
              ''google/protobuf/empty.proto'', ''pets.proto''],
             [(Some ''GetOwnerParameters'', Some ''Owner'')]),
            (Some ''pets.proto'',
             [''google/api/annotations.proto'', ''google/protobuf/descriptor.proto'',
              ''google/protobuf/empty.proto''],
             [(Some ''google.protobuf.Empty'', Some ''Pet'')])],
           [''http://example.com/v2/pets.yaml''],
           [[Cached annotations_Http, Cached empty_Empty, Cached dpb_DescriptorProto,
             Allocated 1]])"
  by code_simp

lemma pets_run_returns:
  "\<exists>st' r' fdSet.
     runFileDescriptorSetGenerator (exampleEnv petsWorld) 2 petsRenderer initialState
       = Some (Inr (st', r', fdSet)) \<and>
     fdSet = [Allocated 1, Cached annotations_Http, Cached empty_Empty,
              Cached dpb_DescriptorProto, Allocated 0] \<and>
     fileSummary (heap st' ! 0) =
       (Some ''pets.proto'',
        [''google/api/annotations.proto'', ''google/protobuf/descriptor.proto'',
         ''google/protobuf/empty.proto'', ''pets.proto''],
        [(Some ''GetOwnerParameters'', Some ''Owner'')]) \<and>
     executed st' = [''http://example.com/v2/pets.yaml''] \<and>
     r_SymbolicFdSets r' = [[Cached annotations_Http, Cached empty_Empty,
                             Cached dpb_DescriptorProto, Allocated 1]]"
proof -
  have first: "f (xs ! 0) = y" if "map f xs = y # ys" for f :: "'a \<Rightarrow> 'b" and xs y ys
    using that by (cases xs) auto
  from pets_run obtain st' r' fdSet where
    run: "runFileDescriptorSetGenerator (exampleEnv petsWorld) 2 petsRenderer initialState
       = Some (Inr (st', r', fdSet))"
    by (auto split: option.splits sum.splits)
  with pets_run have fdSet: "fdSet = [Allocated 1, Cached annotations_Http, Cached empty_Empty,
              Cached dpb_DescriptorProto, Allocated 0]"
    and exe: "executed st' = [''http://example.com/v2/pets.yaml'']"
    and sets: "r_SymbolicFdSets r' = [[Cached annotations_Http, Cached empty_Empty,
                             Cached dpb_DescriptorProto, Allocated 1]]"
    by simp_all
  from pets_run run obtain rest where
    "map fileSummary (heap st') =
       (Some ''pets.proto'',
        [''google/api/annotations.proto'', ''google/protobuf/descriptor.proto'',
         ''google/protobuf/empty.proto'', ''pets.proto''],
        [(Some ''GetOwnerParameters'', Some ''Owner'')]) # rest"
    by simp
  then have "fileSummary (heap st' ! 0) =
       (Some ''pets.proto'',
        [''google/api/annotations.proto'', ''google/protobuf/descriptor.proto'',
         ''google/protobuf/empty.proto'', ''pets.proto''],
        [(Some ''GetOwnerParameters'', Some ''Owner'')])"
    by (rule first)
  with run fdSet exe sets show ?thesis by blast
qed

section \<open>The dependencies of the target file (C3)\<close>




section \<open>The order of the descriptor set (C4)\<close>

text \<open>
  C4.  For every run that returns a set, nested runs included: the last entry of the
  set is the pointer to the file descriptor the run allocated first, which has the
  name and the package of the renderer, and this pointer stands nowhere else in the
  set.  Before it stand the descriptors of the references, which are objects
  allocated later in the run, and then the three descriptors of the library, the
  same three pointers in every set.  The two stages that change the set keep its
  last entry: \<^verbatim>\<open>buildDependencies\<close> and \<^verbatim>\<open>buildSymbolicReferences\<close> put their
  descriptors in front of a set that is not empty.  The stages that follow return a
  state and no set.
\<close>

theorem C4_current_file_is_last:
  assumes "runFileDescriptorSetGenerator E k renderer st = Some (Inr (st', r', fdSet))"
  shows "fdSet \<noteq> [] \<and> last fdSet = Allocated (length (heap st)) \<and>
         length (heap st) < length (heap st') \<and>
         last fdSet \<notin> set (butlast fdSet) \<and>
         file_Name (deref st' (last fdSet)) = Some (r_Package renderer @ ''.proto'') \<and>
         file_Package (deref st' (last fdSet)) = Some (r_Package renderer) \<and>
         (\<exists>sym. fdSet = sym @ [Cached annotations_Http, Cached empty_Empty,
                               Cached dpb_DescriptorProto, last fdSet] \<and>
                list_all (\<lambda>p. \<exists>b. p = Allocated b \<and> length (heap st) < b \<and> b < length (heap st')) sym) \<and>
         file_Name (deref st' (Cached annotations_Http)) = Some ''google/api/annotations.proto'' \<and>
         deref st' (Cached empty_Empty) = deref st (Cached empty_Empty) \<and>
         deref st' (Cached dpb_DescriptorProto) = deref st (Cached dpb_DescriptorProto) \<and>
         (\<forall>fdSet0 st0. fdSet0 \<noteq> [] \<longrightarrow>
            fst (buildDependencies fdSet0 st0)
              = [Cached annotations_Http, Cached empty_Empty, Cached dpb_DescriptorProto] @ fdSet0 \<and>
            last (fst (buildDependencies fdSet0 st0)) = last fdSet0) \<and>
         (\<forall>j fdSet0 renderer0 st0 st1 r1 fdSet1.
            fdSet0 \<noteq> [] \<and>
            buildSymbolicReferences E j fdSet0 renderer0 st0 = Some (Inr (st1, r1, fdSet1)) \<longrightarrow>
            (\<exists>sym. fdSet1 = sym @ fdSet0) \<and> last fdSet1 = last fdSet0)"
proof -
  let ?a = "length (heap st)"
  from run_posts(1) assms have post: "run_post renderer st st' fdSet" by blast
  note rp = run_postD [OF post]
  from rp(3) obtain sym where
    set: "fdSet = sym @ [Cached annotations_Http, Cached empty_Empty,
                         Cached dpb_DescriptorProto, Allocated ?a]" and
    new: "\<forall>p \<in> set sym. \<exists>b. p = Allocated b \<and> ?a < b \<and> b < length (heap st')"
    by blast
  from set have ne: "fdSet \<noteq> []" and last: "last fdSet = Allocated ?a" by simp_all
  from rp(4) have valid: "?a < length (heap st')" .
  from set have butlast: "butlast fdSet = sym @ [Cached annotations_Http, Cached empty_Empty,
                                                   Cached dpb_DescriptorProto]"
    by (simp add: butlast_append)
  from new have "Allocated ?a \<notin> set sym" by auto
  with butlast last have once: "last fdSet \<notin> set (butlast fdSet)" by simp
  from new have "list_all (\<lambda>p. \<exists>b. p = Allocated b \<and> ?a < b \<and> b < length (heap st')) sym"
    by (simp add: list_all_iff)
  with set last have shape: "\<exists>sym. fdSet = sym @ [Cached annotations_Http, Cached empty_Empty,
                               Cached dpb_DescriptorProto, last fdSet] \<and>
                list_all (\<lambda>p. \<exists>b. p = Allocated b \<and> ?a < b \<and> b < length (heap st')) sym"
    by (intro exI [of _ sym]) simp
  from rp(5,6) last have files:
    "file_Name (deref st' (last fdSet)) = Some (r_Package renderer @ ''.proto'')"
    "file_Package (deref st' (last fdSet)) = Some (r_Package renderer)"
    by simp_all
  from rp(7,8,9) have library:
    "file_Name (deref st' (Cached annotations_Http)) = Some ''google/api/annotations.proto''"
    "deref st' (Cached empty_Empty) = deref st (Cached empty_Empty)"
    "deref st' (Cached dpb_DescriptorProto) = deref st (Cached dpb_DescriptorProto)"
    by simp_all
  have stage1: "fst (buildDependencies fdSet0 st0)
              = [Cached annotations_Http, Cached empty_Empty, Cached dpb_DescriptorProto] @ fdSet0 \<and>
            last (fst (buildDependencies fdSet0 st0)) = last fdSet0" if "fdSet0 \<noteq> []"
    for fdSet0 st0
  proof -
    obtain fdSet1 st1 where deps: "buildDependencies fdSet0 st0 = (fdSet1, st1)"
      by (cases "buildDependencies fdSet0 st0") blast
    from buildDependencies_result(1) [OF deps] that deps show ?thesis by simp
  qed
  have stage2: "(\<exists>sym. fdSet1 = sym @ fdSet0) \<and> last fdSet1 = last fdSet0"
    if "fdSet0 \<noteq> []"
      and "buildSymbolicReferences E j fdSet0 renderer0 st0 = Some (Inr (st1, r1, fdSet1))"
    for j fdSet0 renderer0 st0 st1 r1 fdSet1
  proof -
    from run_posts(2) that(2) obtain symNew where "fdSet1 = symNew @ fdSet0" by blast
    with that(1) show ?thesis by simp
  qed
  from ne last valid once files shape library stage1 stage2 show ?thesis
    by (intro conjI allI impI) (simp_all only:, blast+)
qed

theorem C4_current_file_witness:
  "\<exists>st' r' fdSet.
     runFileDescriptorSetGenerator (exampleEnv petsWorld) 2 petsRenderer initialState
       = Some (Inr (st', r', fdSet)) \<and>
     fdSet = [Allocated 1, Cached annotations_Http, Cached empty_Empty,
              Cached dpb_DescriptorProto, Allocated 0] \<and>
     r_SymbolicFdSets r' = [[Cached annotations_Http, Cached empty_Empty,
                             Cached dpb_DescriptorProto, Allocated 1]] \<and>
     last fdSet = Allocated (length (heap initialState)) \<and>
     last fdSet \<notin> set (butlast fdSet) \<and>
     file_Name (deref st' (last fdSet)) = Some (r_Package petsRenderer @ ''.proto'') \<and>
     file_Package (deref st' (last fdSet)) = Some (r_Package petsRenderer)"
proof -
  from pets_run_returns obtain st' r' fdSet where
    run: "runFileDescriptorSetGenerator (exampleEnv petsWorld) 2 petsRenderer initialState
       = Some (Inr (st', r', fdSet))" and
    fdSet: "fdSet = [Allocated 1, Cached annotations_Http, Cached empty_Empty,
              Cached dpb_DescriptorProto, Allocated 0]" and
    sets: "r_SymbolicFdSets r' = [[Cached annotations_Http, Cached empty_Empty,
                             Cached dpb_DescriptorProto, Allocated 1]]"
    by blast
  from C4_current_file_is_last [OF run] have
    "last fdSet = Allocated (length (heap initialState))" "last fdSet \<notin> set (butlast fdSet)"
    "file_Name (deref st' (last fdSet)) = Some (r_Package petsRenderer @ ''.proto'')"
    "file_Package (deref st' (last fdSet)) = Some (r_Package petsRenderer)"
    by blast+
  with run fdSet sets show ?thesis by blast
qed

section \<open>Every reference is resolved once (C5)\<close>








section \<open>The import of the empty type (C2)\<close>

text \<open>
  C2 does not hold of the code: \<^verbatim>\<open>shouldRenderEmptyImport\<close> is a variable of the
  package, set by \<^verbatim>\<open>buildServiceFromMethods\<close> and never reset, so it stays set for
  every file built later in the process.  The document of the package \<open>main\<close> refers
  to \<^verbatim>\<open>a.yaml\<close> and then to \<^verbatim>\<open>b.yaml\<close>.  The only method of \<^verbatim>\<open>a.yaml\<close> has no
  parameter and no response type; it gets the empty type for both, and \<^verbatim>\<open>a.proto\<close>
  depends on \<^verbatim>\<open>google/protobuf/empty.proto\<close>.  The only method of \<^verbatim>\<open>b.yaml\<close> names
  both of its types and no method of its run needs the empty type, yet \<^verbatim>\<open>b.proto\<close>
  depends on \<^verbatim>\<open>google/protobuf/empty.proto\<close> as well.  The two files are the first
  two of the descriptor set.
\<close>

theorem C2_empty_import_stays_for_later_files:
  "(case runFileDescriptorSetGenerator (exampleEnv siblingsWorld) 2 siblingsRenderer initialState of
      Some (Inr (st, r, fdSet)) \<Rightarrow> Some (map (\<lambda>p. fileSummary (deref st p)) (take 2 fdSet))
    | _ \<Rightarrow> None)
   = Some [(Some ''a.proto'',
            [''google/api/annotations.proto'', ''google/protobuf/descriptor.proto'',
             ''google/protobuf/empty.proto''],
            [(Some ''google.protobuf.Empty'', Some ''google.protobuf.Empty'')]),
           (Some ''b.proto'',
            [''google/api/annotations.proto'', ''google/protobuf/descriptor.proto'',
             ''google/protobuf/empty.proto''],
            [(Some ''GetPetParameters'', Some ''Pet'')])]"
  by code_simp


end
